theory Spec2Isabelle
  imports Complex_Main "HOL-Library.Sublist"
begin

section \<open>Interval networks and symbolic interval propagation\<close>

text \<open>
  A shallow embedding of \<^verbatim>\<open>symbolic_interval/symbolic_network.py\<close>.
  Tensor entries are idealised as real numbers. A tensor of the box domain is either a
  batch of flat rows or a batch of channel-by-height-by-width samples, the two layouts the
  layers of the source handle. Exceptions are values of the type \<open>error\<close>.
\<close>

subsection \<open>Tensors\<close>

type_synonym vec = "real list"
type_synonym mat = "real list list"
type_synonym tensor3 = "real list list list"
type_synonym tensor4 = "real list list list list"

datatype tensor = Flat mat | Spatial tensor4

datatype error =
    InvalidBoundsError
  | ShapeMismatchError
  | RuntimeError
  | AttributeError
  | IndexError
  | TypeError
  | ZeroDivisionError
  | NotFinite

fun tmap :: "(real \<Rightarrow> real) \<Rightarrow> tensor \<Rightarrow> tensor" where
  "tmap f (Flat m) = Flat (map (map f) m)"
| "tmap f (Spatial t) = Spatial (map (map (map (map f))) t)"

fun tmap2 :: "(real \<Rightarrow> real \<Rightarrow> real) \<Rightarrow> tensor \<Rightarrow> tensor \<Rightarrow> tensor" where
  "tmap2 f (Flat a) (Flat b) = Flat (map2 (map2 f) a b)"
| "tmap2 f (Spatial a) (Spatial b) = Spatial (map2 (map2 (map2 (map2 f))) a b)"
| "tmap2 f (Flat a) (Spatial b) = Flat []"
| "tmap2 f (Spatial a) (Flat b) = Flat []"

fun telems :: "tensor \<Rightarrow> real list" where
  "telems (Flat m) = concat m"
| "telems (Spatial t) = concat (map (\<lambda>s. concat (map concat s)) t)"

definition same_shape :: "tensor \<Rightarrow> tensor \<Rightarrow> bool" where
  "same_shape a b = (tmap (\<lambda>x. 0) a = tmap (\<lambda>x. 0) b)"

fun batch_len :: "tensor \<Rightarrow> nat" where
  "batch_len (Flat m) = length m"
| "batch_len (Spatial t) = length t"

definition relu :: "real \<Rightarrow> real" where
  "relu x = max 0 x"

definition indicator :: "bool \<Rightarrow> real" where
  "indicator p = (if p then 1 else 0)"

text \<open>\<^verbatim>\<open>F.linear\<close>: every row \<open>x\<close> of the last dimension becomes \<open>W x + b\<close>.\<close>

definition dot :: "vec \<Rightarrow> vec \<Rightarrow> real" where
  "dot x y = sum_list (map2 (*) x y)"

definition mat_vec :: "mat \<Rightarrow> vec \<Rightarrow> vec" where
  "mat_vec W x = map (\<lambda>w. dot w x) W"

definition F_linear_row :: "mat \<Rightarrow> vec option \<Rightarrow> vec \<Rightarrow> vec" where
  "F_linear_row W bias x =
     (case bias of None \<Rightarrow> mat_vec W x | Some b \<Rightarrow> map2 (+) (mat_vec W x) b)"

definition linear_ok :: "mat \<Rightarrow> vec option \<Rightarrow> vec \<Rightarrow> bool" where
  "linear_ok W bias x =
     (list_all (\<lambda>w. length w = length x) W \<and>
      (case bias of None \<Rightarrow> True | Some b \<Rightarrow> length b = length W))"

definition F_linear_mat :: "mat \<Rightarrow> vec option \<Rightarrow> mat \<Rightarrow> error + mat" where
  "F_linear_mat W bias m =
     (if list_all (linear_ok W bias) m then Inr (map (F_linear_row W bias) m)
      else Inl RuntimeError)"

fun F_linear :: "tensor \<Rightarrow> mat \<Rightarrow> vec option \<Rightarrow> error + tensor" where
  "F_linear (Flat m) W bias =
     (if list_all (linear_ok W bias) m then Inr (Flat (map (F_linear_row W bias) m))
      else Inl RuntimeError)"
| "F_linear (Spatial t) W bias =
     (if list_all (list_all (list_all (linear_ok W bias))) t
      then Inr (Spatial (map (map (map (F_linear_row W bias))) t))
      else Inl RuntimeError)"

text \<open>
  \<^verbatim>\<open>F.conv2d\<close> with the stride and padding of the layer (dilation and groups are not
  passed by the source, so they are 1). One sample is a list of channels, each a list of
  image rows.
\<close>

definition dim1 :: "'a list list \<Rightarrow> nat" where
  "dim1 xs = (case xs of [] \<Rightarrow> 0 | r # rs \<Rightarrow> length r)"

definition padded_at :: "mat \<Rightarrow> nat \<Rightarrow> nat \<Rightarrow> nat \<Rightarrow> nat \<Rightarrow> real" where
  "padded_at img ph pw i j =
     (if ph \<le> i \<and> i - ph < length img \<and> pw \<le> j \<and> j - pw < dim1 img
      then img ! (i - ph) ! (j - pw) else 0)"

definition conv_out_size :: "nat \<Rightarrow> nat \<Rightarrow> nat \<Rightarrow> nat \<Rightarrow> nat" where
  "conv_out_size n k s p = (n + 2 * p - k) div s + 1"

definition conv_ok :: "tensor4 \<Rightarrow> vec option \<Rightarrow> nat \<times> nat \<Rightarrow> nat \<times> nat \<Rightarrow> tensor3 \<Rightarrow> bool" where
  "conv_ok W bias stride padding x =
     (let H = dim1 x; Wd = dim1 (concat x); kH = dim1 (concat W); kW = dim1 (concat (concat W))
      in x \<noteq> [] \<and> W \<noteq> [] \<and>
         list_all (\<lambda>f. length f = length x) W \<and>
         list_all (\<lambda>ch. length ch = H \<and> list_all (\<lambda>r. length r = Wd) ch) x \<and>
         list_all (list_all (\<lambda>k. length k = kH \<and> list_all (\<lambda>r. length r = kW) k)) W \<and>
         0 < fst stride \<and> 0 < snd stride \<and>
         kH \<le> H + 2 * fst padding \<and> kW \<le> Wd + 2 * snd padding \<and>
         (case bias of None \<Rightarrow> True | Some b \<Rightarrow> length b = length W))"

definition conv2d_sample ::
    "tensor4 \<Rightarrow> vec option \<Rightarrow> nat \<times> nat \<Rightarrow> nat \<times> nat \<Rightarrow> tensor3 \<Rightarrow> tensor3" where
  "conv2d_sample W bias stride padding x =
     (let H = dim1 x; Wd = dim1 (concat x); kH = dim1 (concat W); kW = dim1 (concat (concat W));
          Ho = conv_out_size H kH (fst stride) (fst padding);
          Wo = conv_out_size Wd kW (snd stride) (snd padding)
      in map (\<lambda>oc.
           map (\<lambda>i.
             map (\<lambda>j.
               (case bias of None \<Rightarrow> 0 | Some b \<Rightarrow> b ! oc) +
               (\<Sum>ch\<leftarrow>[0..<length x]. \<Sum>p\<leftarrow>[0..<kH]. \<Sum>q\<leftarrow>[0..<kW].
                  padded_at (x ! ch) (fst padding) (snd padding)
                    (i * fst stride + p) (j * snd stride + q) * (W ! oc ! ch ! p ! q)))
             [0..<Wo])
           [0..<Ho])
         [0..<length W])"

definition conv2d_batch ::
    "tensor4 \<Rightarrow> vec option \<Rightarrow> nat \<times> nat \<Rightarrow> nat \<times> nat \<Rightarrow> tensor4 \<Rightarrow> error + tensor4" where
  "conv2d_batch W bias stride padding t =
     (if list_all (conv_ok W bias stride padding) t
      then Inr (map (conv2d_sample W bias stride padding) t)
      else Inl RuntimeError)"

fun F_conv2d ::
    "tensor \<Rightarrow> tensor4 \<Rightarrow> vec option \<Rightarrow> nat \<times> nat \<Rightarrow> nat \<times> nat \<Rightarrow> error + tensor" where
  "F_conv2d (Spatial t) W bias stride padding =
     (case conv2d_batch W bias stride padding t of
        Inl err \<Rightarrow> Inl err
      | Inr r \<Rightarrow> Inr (Spatial r))"
| "F_conv2d (Flat m) W bias stride padding = Inl RuntimeError"

definition weight_abs :: "mat \<Rightarrow> mat" where
  "weight_abs W = map (map abs) W"

definition weight4_abs :: "tensor4 \<Rightarrow> tensor4" where
  "weight4_abs W = map (map (map (map abs))) W"

text \<open>Reshaping between the flat row of a sample and its spatial layout.\<close>

definition chunks :: "nat \<Rightarrow> 'a list \<Rightarrow> 'a list list" where
  "chunks k xs = map (\<lambda>i. take k (drop (i * k) xs)) [0..<length xs div k]"

definition flatten3 :: "tensor3 \<Rightarrow> vec" where
  "flatten3 s = concat (map concat s)"

definition reshape3 :: "nat list \<Rightarrow> vec \<Rightarrow> error + tensor3" where
  "reshape3 shp row =
     (case shp of
        [C, H, Wd] \<Rightarrow>
          (if length row = C * H * Wd \<and> 0 < C * H * Wd
           then Inr (map (chunks Wd) (chunks (H * Wd) row))
           else Inl RuntimeError)
      | _ \<Rightarrow> Inl RuntimeError)"

fun collect :: "('e + 'a) list \<Rightarrow> 'e + 'a list" where
  "collect [] = Inr []"
| "collect (r # rs) =
     (case r of
        Inl err \<Rightarrow> Inl err
      | Inr x \<Rightarrow> (case collect rs of Inl err \<Rightarrow> Inl err | Inr xs \<Rightarrow> Inr (x # xs)))"

subsection \<open>Layers of the model\<close>

text \<open>
  A layer of the \<^verbatim>\<open>nn.Sequential\<close> model: one of torch's \<^verbatim>\<open>nn.Linear\<close>
  (weight, optional bias), \<^verbatim>\<open>nn.ReLU\<close>, \<^verbatim>\<open>nn.Conv2d\<close> (weight, optional bias,
  stride, padding), or a module of any other class, given by its class name.
\<close>

datatype module =
    Linear mat "vec option"
  | ReLU
  | Conv2d tensor4 "vec option" "nat \<times> nat" "nat \<times> nat"
  | Module string

fun class_name :: "module \<Rightarrow> string" where
  "class_name (Linear W b) = ''Linear''"
| "class_name ReLU = ''ReLU''"
| "class_name (Conv2d W b s p) = ''Conv2d''"
| "class_name (Module nm) = nm"

fun isinstance_Linear :: "module \<Rightarrow> bool" where
  "isinstance_Linear (Linear W b) = True"
| "isinstance_Linear m = False"

fun isinstance_ReLU :: "module \<Rightarrow> bool" where
  "isinstance_ReLU ReLU = True"
| "isinstance_ReLU m = False"

fun isinstance_Conv2d :: "module \<Rightarrow> bool" where
  "isinstance_Conv2d (Conv2d W b s p) = True"
| "isinstance_Conv2d m = False"

text \<open>Python's \<^verbatim>\<open>sub in s\<close> on strings.\<close>

fun str_in :: "string \<Rightarrow> string \<Rightarrow> bool" where
  "str_in sub [] = (sub = [])"
| "str_in sub (ch # s) = (prefix sub (ch # s) \<or> str_in sub s)"

subsection \<open>The box domain\<close>

record interval =
  ix_l :: tensor
  ix_u :: tensor
  ix_c :: tensor
  ix_e :: tensor
  ix_mask :: "tensor list"
  ix_use_cuda :: bool

definition bounds_ok :: "tensor \<Rightarrow> tensor \<Rightarrow> bool" where
  "bounds_ok lower upper = list_all (\<lambda>d. 0 \<le> d) (telems (tmap2 (-) upper lower))"

text \<open>
  Modelled from the spec: the class \<^verbatim>\<open>Interval\<close> of \<^verbatim>\<open>symbolic_interval/interval.py\<close>,
  which is not among the sources. Section 4.1: construction and update store the bounds,
  fail with \<open>InvalidBoundsError\<close> unless \<open>lower \<le> upper\<close> everywhere, and derive
  \<open>center = (lower + upper) / 2\<close> and \<open>radius = (upper - lower) / 2\<close>.
\<close>

definition update_lu :: "interval \<Rightarrow> tensor \<Rightarrow> tensor \<Rightarrow> error + interval" where
  "update_lu ix lower upper =
     (if \<not> same_shape lower upper then Inl ShapeMismatchError
      else if \<not> bounds_ok lower upper then Inl InvalidBoundsError
      else Inr (ix\<lparr>ix_l := lower, ix_u := upper,
                   ix_c := tmap2 (\<lambda>a b. (a + b) / 2) lower upper,
                   ix_e := tmap2 (\<lambda>a b. (b - a) / 2) lower upper\<rparr>))"

definition Interval :: "tensor \<Rightarrow> tensor \<Rightarrow> bool \<Rightarrow> error + interval" where
  "Interval lower upper use_cuda =
     update_lu \<lparr>ix_l = lower, ix_u = upper, ix_c = lower, ix_e = lower,
                 ix_mask = [], ix_use_cuda = use_cuda\<rparr> lower upper"

text \<open>
  Modelled from the spec: \<^verbatim>\<open>Interval.worst_case\<close>, section 4.1: per sample, the logit
  of the true label is its lower bound and every other logit is its upper bound.
\<close>

definition pin_row :: "vec \<Rightarrow> vec \<Rightarrow> nat \<Rightarrow> vec" where
  "pin_row lo up lbl = map (\<lambda>j. if j = lbl then lo ! j else up ! j) [0..<length up]"

definition pin_rows :: "mat \<Rightarrow> mat \<Rightarrow> nat list \<Rightarrow> error + mat" where
  "pin_rows lo up y =
     (if length y = length up \<and> length lo = length up \<and>
         list_all (\<lambda>(l_row, u_row, lbl). length l_row = length u_row \<and> lbl < length u_row)
           (zip lo (zip up y))
      then Inr (map (\<lambda>(l_row, u_row, lbl). pin_row l_row u_row lbl) (zip lo (zip up y)))
      else Inl RuntimeError)"

definition worst_case :: "interval \<Rightarrow> nat list \<Rightarrow> error + mat" where
  "worst_case ix y =
     (case (ix_l ix, ix_u ix) of
        (Flat lo, Flat up) \<Rightarrow> pin_rows lo up y
      | _ \<Rightarrow> Inl RuntimeError)"

subsection \<open>The symbolic domain\<close>

record symbolic_interval =
  sym_l :: mat
  sym_u :: mat
  sym_c :: mat
  sym_idep :: "mat list"
  sym_edep :: "mat list"
  sym_edep_ind :: "mat list"
  sym_shape :: "nat list"
  sym_n :: nat
  sym_batch_size :: nat
  sym_use_cuda :: bool

text \<open>
  Modelled from the spec: the class \<^verbatim>\<open>Symbolic_interval\<close> of
  \<^verbatim>\<open>symbolic_interval/interval.py\<close>, which is not among the sources. Sections 3 and 4.2:
  \<open>sym_c\<close> is the center (batch by \<open>n\<close>, every sample kept as a flat row, with
  \<open>sym_shape\<close> its spatial layout), \<open>sym_idep\<close> the exact dependency (per sample, one
  row per input dimension), \<open>sym_edep\<close> the error dependencies and \<open>sym_edep_ind\<close>
  their owners (rows by batch). Concretizing subtracts from and adds to the center the sum
  of the absolute exact dependencies and of the absolute error dependencies weighted by
  owner.
\<close>

definition abs_col_sum :: "nat \<Rightarrow> mat \<Rightarrow> vec" where
  "abs_col_sum n m = map (\<lambda>j. \<Sum>row\<leftarrow>m. \<bar>row ! j\<bar>) [0..<n]"

definition owned_abs_sum :: "nat \<Rightarrow> nat \<Rightarrow> mat \<Rightarrow> mat \<Rightarrow> vec" where
  "owned_abs_sum n b ind ed = map (\<lambda>j. \<Sum>(o_row, row)\<leftarrow>zip ind ed. o_row ! b * \<bar>row ! j\<bar>) [0..<n]"

definition sym_radius :: "symbolic_interval \<Rightarrow> mat" where
  "sym_radius ix =
     map (\<lambda>b. foldl (map2 (+)) (abs_col_sum (sym_n ix) (sym_idep ix ! b))
                (map (\<lambda>(ind, ed). owned_abs_sum (sym_n ix) b ind ed)
                   (zip (sym_edep_ind ix) (sym_edep ix))))
       [0..<length (sym_c ix)]"

definition concretize :: "symbolic_interval \<Rightarrow> symbolic_interval" where
  "concretize ix =
     ix\<lparr>sym_l := map2 (map2 (-)) (sym_c ix) (sym_radius ix),
        sym_u := map2 (map2 (+)) (sym_c ix) (sym_radius ix)\<rparr>"

fun rows_of :: "tensor \<Rightarrow> mat" where
  "rows_of (Flat m) = m"
| "rows_of (Spatial t) = map flatten3 t"

fun sample_shape :: "tensor \<Rightarrow> nat list" where
  "sample_shape (Flat m) = [dim1 m]"
| "sample_shape (Spatial t) = [dim1 t, dim1 (concat t), dim1 (concat (concat t))]"

definition diag_row :: "vec \<Rightarrow> nat \<Rightarrow> vec" where
  "diag_row r i = (replicate (length r) 0)[i := r ! i]"

definition Symbolic_interval :: "tensor \<Rightarrow> tensor \<Rightarrow> bool \<Rightarrow> error + symbolic_interval" where
  "Symbolic_interval lower upper use_cuda =
     (if \<not> same_shape lower upper then Inl ShapeMismatchError
      else if \<not> bounds_ok lower upper then Inl InvalidBoundsError
      else Inr \<lparr>sym_l = rows_of lower, sym_u = rows_of upper,
                sym_c = map2 (map2 (\<lambda>a b. (a + b) / 2)) (rows_of lower) (rows_of upper),
                sym_idep = map2 (\<lambda>lo up. map (diag_row (map2 (\<lambda>a b. (b - a) / 2) lo up))
                                             [0..<length lo])
                             (rows_of lower) (rows_of upper),
                sym_edep = [], sym_edep_ind = [],
                sym_shape = sample_shape lower, sym_n = dim1 (rows_of lower),
                sym_batch_size = length (rows_of lower), sym_use_cuda = use_cuda\<rparr>)"

definition sym_worst_case :: "symbolic_interval \<Rightarrow> nat list \<Rightarrow> nat \<Rightarrow> error + mat" where
  "sym_worst_case ix y output_size =
     (let cx = concretize ix in
      if list_all (\<lambda>row. length row = output_size) (sym_u cx)
      then pin_rows (sym_l cx) (sym_u cx) y
      else Inl RuntimeError)"

text \<open>
  The shapes of section 3, which the tensor operations of the ReLU transfer function
  need: anything else makes one of them raise.
\<close>

definition shapes_ok :: "symbolic_interval \<Rightarrow> bool" where
  "shapes_ok ix =
     (let n = sym_n ix; B = sym_batch_size ix in
      length (sym_l ix) = B \<and> length (sym_u ix) = B \<and> length (sym_c ix) = B \<and>
      length (sym_idep ix) = B \<and>
      list_all (\<lambda>r. length r = n) (sym_l ix) \<and>
      list_all (\<lambda>r. length r = n) (sym_u ix) \<and>
      list_all (\<lambda>r. length r = n) (sym_c ix) \<and>
      list_all (list_all (\<lambda>r. length r = n)) (sym_idep ix) \<and>
      list_all (list_all (\<lambda>r. length r = n)) (sym_edep ix) \<and>
      list_all (list_all (\<lambda>r. length r = B)) (sym_edep_ind ix) \<and>
      map length (sym_edep ix) = map length (sym_edep_ind ix))"

datatype pyobj = Sym symbolic_interval | Box interval | PyNone | Other

subsection \<open>Transfer functions\<close>

text \<open>
  Every \<^verbatim>\<open>forward\<close> tests \<^verbatim>\<open>isinstance(ix, Symbolic_interval)\<close>, then
  \<^verbatim>\<open>isinstance(ix, Interval)\<close>, and otherwise falls off its end, which returns
  \<^verbatim>\<open>None\<close>.
\<close>

definition Interval_Dense_sym ::
    "mat \<Rightarrow> vec option \<Rightarrow> symbolic_interval \<Rightarrow> error + symbolic_interval" where
  "Interval_Dense_sym W bias ix =
     (case F_linear_mat W bias (sym_c ix) of
        Inl err \<Rightarrow> Inl err
      | Inr c' \<Rightarrow>
     (case collect (map (F_linear_mat W None) (sym_idep ix)) of
        Inl err \<Rightarrow> Inl err
      | Inr idep' \<Rightarrow>
     (case collect (map (F_linear_mat W None) (sym_edep ix)) of
        Inl err \<Rightarrow> Inl err
      | Inr edep' \<Rightarrow>
     (case c' of
        [] \<Rightarrow> Inl IndexError
      | row # rest \<Rightarrow>
          Inr (concretize (ix\<lparr>sym_c := c', sym_idep := idep', sym_edep := edep',
                               sym_shape := [length row], sym_n := length row\<rparr>))))))"

definition Interval_Dense_box :: "mat \<Rightarrow> vec option \<Rightarrow> interval \<Rightarrow> error + interval" where
  "Interval_Dense_box W bias ix =
     (case F_linear (ix_c ix) W bias of
        Inl err \<Rightarrow> Inl err
      | Inr c' \<Rightarrow>
     (case F_linear (ix_e ix) (weight_abs W) None of
        Inl err \<Rightarrow> Inl err
      | Inr e' \<Rightarrow> update_lu ix (tmap2 (-) c' e') (tmap2 (+) c' e')))"

fun Interval_Dense_forward :: "module \<Rightarrow> pyobj \<Rightarrow> error + pyobj" where
  "Interval_Dense_forward (Linear W bias) (Sym ix) = map_sum id Sym (Interval_Dense_sym W bias ix)"
| "Interval_Dense_forward (Linear W bias) (Box ix) = map_sum id Box (Interval_Dense_box W bias ix)"
| "Interval_Dense_forward layer (Sym ix) = Inl AttributeError"
| "Interval_Dense_forward layer (Box ix) = Inl AttributeError"
| "Interval_Dense_forward layer ix = Inr PyNone"

text \<open>
  The symbolic branch of the convolution: \<^verbatim>\<open>shrink\<close> gives every flat row the spatial
  layout \<open>sym_shape\<close>, the convolution is applied, and \<^verbatim>\<open>concretize\<close> flattens again.
\<close>

definition conv_rows ::
    "tensor4 \<Rightarrow> vec option \<Rightarrow> nat \<times> nat \<Rightarrow> nat \<times> nat \<Rightarrow> nat list \<Rightarrow> mat \<Rightarrow> error + tensor4" where
  "conv_rows W bias stride padding shp rows =
     (case collect (map (reshape3 shp) rows) of
        Inl err \<Rightarrow> Inl err
      | Inr t \<Rightarrow> conv2d_batch W bias stride padding t)"

definition Interval_Conv2d_sym ::
    "tensor4 \<Rightarrow> vec option \<Rightarrow> nat \<times> nat \<Rightarrow> nat \<times> nat \<Rightarrow> symbolic_interval
       \<Rightarrow> error + symbolic_interval" where
  "Interval_Conv2d_sym W bias stride padding ix =
     (case conv_rows W bias stride padding (sym_shape ix) (sym_c ix) of
        Inl err \<Rightarrow> Inl err
      | Inr c' \<Rightarrow>
     (case collect (map (conv_rows W None stride padding (sym_shape ix)) (sym_idep ix)) of
        Inl err \<Rightarrow> Inl err
      | Inr idep' \<Rightarrow>
     (case collect (map (conv_rows W None stride padding (sym_shape ix)) (sym_edep ix)) of
        Inl err \<Rightarrow> Inl err
      | Inr edep' \<Rightarrow>
     (case c' of
        [] \<Rightarrow> Inl IndexError
      | s # rest \<Rightarrow>
          Inr (concretize (ix\<lparr>sym_c := map flatten3 c',
                               sym_idep := map (map flatten3) idep',
                               sym_edep := map (map flatten3) edep',
                               sym_shape := [length s, dim1 s, dim1 (concat s)],
                               sym_n := length (flatten3 s)\<rparr>))))))"

definition Interval_Conv2d_box ::
    "tensor4 \<Rightarrow> vec option \<Rightarrow> nat \<times> nat \<Rightarrow> nat \<times> nat \<Rightarrow> interval \<Rightarrow> error + interval" where
  "Interval_Conv2d_box W bias stride padding ix =
     (case F_conv2d (ix_c ix) W bias stride padding of
        Inl err \<Rightarrow> Inl err
      | Inr c' \<Rightarrow>
     (case F_conv2d (ix_e ix) (weight4_abs W) None stride padding of
        Inl err \<Rightarrow> Inl err
      | Inr e' \<Rightarrow> update_lu ix (tmap2 (-) c' e') (tmap2 (+) c' e')))"

fun Interval_Conv2d_forward :: "module \<Rightarrow> pyobj \<Rightarrow> error + pyobj" where
  "Interval_Conv2d_forward (Conv2d W bias stride padding) (Sym ix) =
     map_sum id Sym (Interval_Conv2d_sym W bias stride padding ix)"
| "Interval_Conv2d_forward (Conv2d W bias stride padding) (Box ix) =
     map_sum id Box (Interval_Conv2d_box W bias stride padding ix)"
| "Interval_Conv2d_forward layer (Sym ix) = Inl AttributeError"
| "Interval_Conv2d_forward layer (Box ix) = Inl AttributeError"
| "Interval_Conv2d_forward layer ix = Inr PyNone"

text \<open>The ReLU relaxation, symbolic branch (lines 141 to 177).\<close>

definition appr_cond :: "real \<Rightarrow> real \<Rightarrow> bool" where
  "appr_cond lower upper = (lower < 0 \<and> upper > 0)"

definition sym_mask_unit :: "real \<Rightarrow> real \<Rightarrow> real" where
  "sym_mask_unit lower upper =
     (if appr_cond lower upper then upper / (upper - lower) else indicator (lower > 0))"

definition sym_denominators :: "mat \<Rightarrow> mat \<Rightarrow> real list" where
  "sym_denominators lower upper =
     map (\<lambda>(lo, up). up - lo) (filter (\<lambda>(lo, up). appr_cond lo up) (zip (concat lower) (concat upper)))"

definition nonzero :: "bool list list \<Rightarrow> (nat \<times> nat) list" where
  "nonzero cond =
     concat (map (\<lambda>b. map (\<lambda>j. (b, j)) (filter (\<lambda>j. cond ! b ! j) [0..<length (cond ! b)]))
               [0..<length cond])"

definition masked_select :: "mat \<Rightarrow> bool list list \<Rightarrow> real list" where
  "masked_select t cond = map fst (filter snd (zip (concat t) (concat cond)))"

definition scatter_col :: "mat \<Rightarrow> nat list \<Rightarrow> real list \<Rightarrow> mat" where
  "scatter_col rows idx src =
     map (\<lambda>i. if i < length idx \<and> i < length src then (rows ! i)[idx ! i := src ! i] else rows ! i)
       [0..<length rows]"

definition mm :: "nat \<Rightarrow> mat \<Rightarrow> mat \<Rightarrow> mat" where
  "mm n A M = map (\<lambda>a. map (\<lambda>j. \<Sum>b\<leftarrow>[0..<length M]. a ! b * M ! b ! j) [0..<n]) A"

definition Interval_ReLU_sym :: "symbolic_interval \<Rightarrow> error + symbolic_interval" where
  "Interval_ReLU_sym ix =
     (let lower = sym_l ix; upper = sym_u ix in
      if \<not> shapes_ok ix then Inl ShapeMismatchError
      else if \<not> list_all (\<lambda>d. d \<noteq> 0) (sym_denominators lower upper) then Inl NotFinite
      else
        let appr_condition = map2 (map2 appr_cond) lower upper;
            msk = map2 (map2 sym_mask_unit) lower upper;
            m = length (filter id (concat appr_condition));
            appr_ind = nonzero appr_condition;
            appr_err = map2 (map2 (\<lambda>mk lo. mk * (- lo) / 2)) msk lower;
            error_row = scatter_col (replicate m (replicate (sym_n ix) 0))
                          (map snd appr_ind) (masked_select appr_err appr_condition);
            edep_ind = scatter_col (replicate (length appr_ind) (replicate (length lower) 0))
                          (map fst appr_ind) (replicate (length appr_ind) 1);
            c' = map2 (map2 (+)) (map2 (map2 (*)) (sym_c ix) msk)
                   (map2 (map2 (\<lambda>a p. a * indicator p)) appr_err appr_condition);
            edep' = map2 (\<lambda>ed ind. map2 (map2 (*)) ed (mm (sym_n ix) ind msk))
                      (sym_edep ix) (sym_edep_ind ix);
            idep' = map2 (\<lambda>dep mrow. map (\<lambda>r. map2 (*) r mrow) dep) (sym_idep ix) msk
        in Inr (ix\<lparr>sym_c := c', sym_edep := edep' @ [error_row], sym_idep := idep',
                    sym_edep_ind := sym_edep_ind ix @ [edep_ind]\<rparr>))"

text \<open>The ReLU relaxation, box branch (lines 179 to 199).\<close>

definition tdiv :: "tensor \<Rightarrow> tensor \<Rightarrow> error + tensor" where
  "tdiv a b = (if list_all (\<lambda>d. d \<noteq> 0) (telems b) then Inr (tmap2 (/) a b) else Inl NotFinite)"

definition box_denominators :: "tensor \<Rightarrow> tensor \<Rightarrow> tensor" where
  "box_denominators lower upper = tmap (\<lambda>d. d + 0.000001) (tmap2 (-) upper lower)"

definition box_appr_condition :: "tensor \<Rightarrow> tensor \<Rightarrow> tensor" where
  "box_appr_condition lower upper =
     tmap2 (*) (tmap (\<lambda>lo. indicator (lo < 0)) lower) (tmap (\<lambda>up. indicator (up > 0)) upper)"

definition box_mask :: "tensor \<Rightarrow> tensor \<Rightarrow> error + tensor" where
  "box_mask lower upper =
     (let appr_condition = box_appr_condition lower upper in
      case tdiv upper (box_denominators lower upper) of
        Inl err \<Rightarrow> Inl err
      | Inr q \<Rightarrow>
          let msk = tmap2 (*) appr_condition q;
              msk = tmap2 (-) (tmap (\<lambda>mk. mk + 1) msk) appr_condition;
              msk = tmap2 (*) msk (tmap (\<lambda>up. indicator (up > 0)) upper)
          in Inr msk)"

definition Interval_ReLU_box :: "interval \<Rightarrow> error + interval" where
  "Interval_ReLU_box ix =
     (case box_mask (ix_l ix) (ix_u ix) of
        Inl err \<Rightarrow> Inl err
      | Inr msk \<Rightarrow>
          update_lu (ix\<lparr>ix_mask := ix_mask ix @ [msk]\<rparr>)
            (tmap relu (ix_l ix)) (tmap relu (ix_u ix)))"

fun Interval_ReLU_forward :: "pyobj \<Rightarrow> error + pyobj" where
  "Interval_ReLU_forward (Sym ix) = map_sum id Sym (Interval_ReLU_sym ix)"
| "Interval_ReLU_forward (Box ix) = map_sum id Box (Interval_ReLU_box ix)"
| "Interval_ReLU_forward ix = Inr PyNone"

text \<open>
  Flatten: \<^verbatim>\<open>extend\<close> on a symbolic interval (its rows are flat already), a view of the
  bounds as batch by the rest on a box.
\<close>

fun view_batch :: "tensor \<Rightarrow> error + tensor" where
  "view_batch (Flat m) = (if list_all (\<lambda>r. r = []) m then Inl RuntimeError else Inr (Flat m))"
| "view_batch (Spatial t) =
     (if list_all (\<lambda>r. r = []) (map flatten3 t) then Inl RuntimeError
      else Inr (Flat (map flatten3 t)))"

definition Interval_Flatten_box :: "interval \<Rightarrow> error + interval" where
  "Interval_Flatten_box ix =
     (case view_batch (ix_l ix) of
        Inl err \<Rightarrow> Inl err
      | Inr lo \<Rightarrow>
     (case view_batch (ix_u ix) of
        Inl err \<Rightarrow> Inl err
      | Inr up \<Rightarrow> update_lu ix lo up))"

fun Interval_Flatten_forward :: "pyobj \<Rightarrow> error + pyobj" where
  "Interval_Flatten_forward (Sym ix) = Inr (Sym ix)"
| "Interval_Flatten_forward (Box ix) = map_sum id Box (Interval_Flatten_box ix)"
| "Interval_Flatten_forward ix = Inr PyNone"

subsection \<open>The network driver\<close>

datatype transfer =
    Interval_Dense module
  | Interval_ReLU module
  | Interval_Conv2d module
  | Interval_Flatten

definition add_layer :: "transfer list \<Rightarrow> module \<Rightarrow> transfer list" where
  "add_layer net layer =
     (let net = (if isinstance_Linear layer then net @ [Interval_Dense layer] else net);
          net = (if isinstance_ReLU layer then net @ [Interval_ReLU layer] else net);
          net = (if isinstance_Conv2d layer then net @ [Interval_Conv2d layer] else net);
          net = (if str_in ''Flatten'' (class_name layer) then net @ [Interval_Flatten] else net)
      in net)"

definition Interval_network :: "module list \<Rightarrow> transfer list" where
  "Interval_network model = foldl add_layer [] model"

fun call_layer :: "transfer \<Rightarrow> pyobj \<Rightarrow> error + pyobj" where
  "call_layer (Interval_Dense layer) ix = Interval_Dense_forward layer ix"
| "call_layer (Interval_ReLU layer) ix = Interval_ReLU_forward ix"
| "call_layer (Interval_Conv2d layer) ix = Interval_Conv2d_forward layer ix"
| "call_layer Interval_Flatten ix = Interval_Flatten_forward ix"

fun forward :: "transfer list \<Rightarrow> pyobj \<Rightarrow> error + pyobj" where
  "forward [] ix = Inr ix"
| "forward (layer # net) ix =
     (case call_layer layer ix of
        Inl err \<Rightarrow> Inl err
      | Inr ix' \<Rightarrow> forward net ix')"

subsection \<open>The verification entry points\<close>

text \<open>
  \<^verbatim>\<open>X.min()\<close> and \<^verbatim>\<open>X.max()\<close> raise on a tensor with no element;
  \<^verbatim>\<open>torch.clamp(x, lo, hi)\<close> is \<open>min (max x lo) hi\<close>; \<^verbatim>\<open>nn.CrossEntropyLoss\<close>
  is the mean over the batch of the negated logarithm of the softmax at the label;
  \<^verbatim>\<open>wc.max(1)[1]\<close> is the index of the first maximum of a row. The call of
  \<^verbatim>\<open>print\<close> in \<^verbatim>\<open>naive_interval_analyze\<close> has no part in the returned pair.
\<close>

fun tensor_min :: "tensor \<Rightarrow> error + real" where
  "tensor_min X = (case telems X of [] \<Rightarrow> Inl RuntimeError | v # vs \<Rightarrow> Inr (fold min vs v))"

fun tensor_max :: "tensor \<Rightarrow> error + real" where
  "tensor_max X = (case telems X of [] \<Rightarrow> Inl RuntimeError | v # vs \<Rightarrow> Inr (fold max vs v))"

definition clamp :: "tensor \<Rightarrow> real \<Rightarrow> real \<Rightarrow> tensor" where
  "clamp X lo hi = tmap (\<lambda>v. min (max v lo) hi) X"

definition CrossEntropyLoss :: "mat \<Rightarrow> nat list \<Rightarrow> real" where
  "CrossEntropyLoss wc y =
     (\<Sum>(row, lbl)\<leftarrow>zip wc y. - ln (exp (row ! lbl) / (\<Sum>v\<leftarrow>row. exp v))) / real (length wc)"

definition argmax :: "vec \<Rightarrow> nat" where
  "argmax row = (case row of [] \<Rightarrow> 0 | v # vs \<Rightarrow> length (takeWhile (\<lambda>w. w \<noteq> fold max vs v) row))"

definition error_count :: "mat \<Rightarrow> nat list \<Rightarrow> real" where
  "error_count wc y = (\<Sum>(row, lbl)\<leftarrow>zip wc y. indicator (argmax row \<noteq> lbl))"

definition naive_interval_analyze ::
    "module list \<Rightarrow> real \<Rightarrow> tensor \<Rightarrow> nat list \<Rightarrow> bool \<Rightarrow> error + real \<times> real" where
  "naive_interval_analyze model epsilon X y use_cuda =
     (let inet = Interval_network model in
      (case tensor_min X of Inl err \<Rightarrow> Inl err | Inr minimum \<Rightarrow>
      (case tensor_max X of Inl err \<Rightarrow> Inl err | Inr maximum \<Rightarrow>
      (case Interval (clamp (tmap (\<lambda>v. v - epsilon) X) minimum maximum)
                     (clamp (tmap (\<lambda>v. v + epsilon) X) minimum maximum) use_cuda of
         Inl err \<Rightarrow> Inl err
       | Inr ix \<Rightarrow>
      (case forward inet (Box ix) of
         Inl err \<Rightarrow> Inl err
       | Inr (Box ix') \<Rightarrow>
           (case worst_case ix' y of
              Inl err \<Rightarrow> Inl err
            | Inr wc \<Rightarrow>
                (if batch_len X = 0 then Inl ZeroDivisionError
                 else Inr (CrossEntropyLoss wc y, error_count wc y / real (batch_len X))))
       | Inr (Sym sx) \<Rightarrow> Inl TypeError
       | Inr other \<Rightarrow> Inl AttributeError)))))"

fun out_features :: "module list \<Rightarrow> error + nat" where
  "out_features [] = Inl IndexError"
| "out_features net =
     (case last net of Linear W bias \<Rightarrow> Inr (length W) | other \<Rightarrow> Inl AttributeError)"

definition sym_interval_analyze ::
    "module list \<Rightarrow> real \<Rightarrow> tensor \<Rightarrow> nat list \<Rightarrow> bool \<Rightarrow> error + real \<times> real" where
  "sym_interval_analyze net epsilon X y use_cuda =
     (let inet = Interval_network net in
      (case tensor_min X of Inl err \<Rightarrow> Inl err | Inr minimum \<Rightarrow>
      (case tensor_max X of Inl err \<Rightarrow> Inl err | Inr maximum \<Rightarrow>
      (case Symbolic_interval (clamp (tmap (\<lambda>v. v - epsilon) X) minimum maximum)
                              (clamp (tmap (\<lambda>v. v + epsilon) X) minimum maximum) use_cuda of
         Inl err \<Rightarrow> Inl err
       | Inr ix \<Rightarrow>
      (case forward inet (Sym ix) of
         Inl err \<Rightarrow> Inl err
       | Inr (Sym ix') \<Rightarrow>
           (case out_features net of
              Inl err \<Rightarrow> Inl err
            | Inr k \<Rightarrow>
                (case sym_worst_case ix' y k of
                   Inl err \<Rightarrow> Inl err
                 | Inr wc \<Rightarrow>
                     (if batch_len X = 0 then Inl ZeroDivisionError
                      else Inr (CrossEntropyLoss wc y, error_count wc y / real (batch_len X)))))
       | Inr (Box bx) \<Rightarrow> Inl TypeError
       | Inr other \<Rightarrow> Inl AttributeError)))))"

subsection \<open>Notions of the specification\<close>

text \<open>
  Section 4.4 of the specification asks the box branch of the ReLU for bounds recomputed
  from the center and radius scaled by the slope mask. This is that reading, to be
  compared with what \<open>Interval_ReLU_box\<close> does.
\<close>

definition slope_scaled_bounds :: "interval \<Rightarrow> tensor \<Rightarrow> tensor \<times> tensor" where
  "slope_scaled_bounds ix msk =
     (let cs = tmap2 (*) (ix_c ix) msk; es = tmap2 (*) (ix_e ix) msk
      in (tmap2 (-) cs es, tmap2 (+) cs es))"

text \<open>The number of ambiguous units of a batch, and a row with a single entry 1.\<close>

definition ambiguous_count :: "mat \<Rightarrow> mat \<Rightarrow> nat" where
  "ambiguous_count lower upper =
     length (filter (\<lambda>(lo, up). lo < 0 \<and> 0 < up) (zip (concat lower) (concat upper)))"

definition one_hot :: "vec \<Rightarrow> bool" where
  "one_hot row = (length (filter (\<lambda>v. v \<noteq> 0) row) = 1 \<and> list_all (\<lambda>v. v = 0 \<or> v = 1) row)"

text \<open>
  The number of samples whose first maximal logit is not at the label, divided by \<open>n\<close>.
\<close>

definition error_rate :: "mat \<Rightarrow> nat list \<Rightarrow> nat \<Rightarrow> real" where
  "error_rate wc y n =
     real (length (filter (\<lambda>i. argmax (wc ! i) \<noteq> y ! i) [0..<length y])) / real n"

subsection \<open>Concrete inputs\<close>

text \<open>
  A box over one sample with two inputs between 1/2 and 3/2, and a box over one sample
  with one channel of one pixel between 0 and 2.
\<close>

definition box_in :: interval where
  "box_in = \<lparr>ix_l = Flat [[1/2, 1/2]], ix_u = Flat [[3/2, 3/2]], ix_c = Flat [[1, 1]],
             ix_e = Flat [[1/2, 1/2]], ix_mask = [], ix_use_cuda = False\<rparr>"

definition conv_in :: interval where
  "conv_in = \<lparr>ix_l = Spatial [[[[0]]]], ix_u = Spatial [[[[2]]]], ix_c = Spatial [[[[1]]]],
              ix_e = Spatial [[[[1]]]], ix_mask = [], ix_use_cuda = False\<rparr>"

text \<open>A box over one sample with one ambiguous unit, between -1 and 1.\<close>

definition amb_box :: interval where
  "amb_box = \<lparr>ix_l = Flat [[-1]], ix_u = Flat [[1]], ix_c = Flat [[0]],
              ix_e = Flat [[1]], ix_mask = [], ix_use_cuda = False\<rparr>"

text \<open>A box whose first unit is degenerate (lower = upper = 2) and whose second is ambiguous.\<close>

definition deg_box :: interval where
  "deg_box = \<lparr>ix_l = Flat [[2, -1]], ix_u = Flat [[2, 3]], ix_c = Flat [[2, 1]],
              ix_e = Flat [[0, 2]], ix_mask = [], ix_use_cuda = False\<rparr>"

text \<open>A model with one layer of every kind and one that the driver does not know.\<close>

definition model_ex :: "module list" where
  "model_ex = [Linear [[1, -1]] (Some [0]), ReLU, Module ''Dropout'',
               Conv2d [[[[-2]]]] (Some [1]) (1, 1) (0, 0), Module ''Flatten'']"

text \<open>
  The scenario of the specification in the symbolic domain: one sample with two inputs
  between 1/2 and 3/2 (\<open>sym_in\<close>), after the layer with weight \<open>[[1, -1]]\<close> and bias 0
  (\<open>sym_amb\<close>, one ambiguous unit between -1 and 1), after the ReLU (\<open>sym_relu\<close>, slope 1/2
  and one error row of magnitude 1/4), and after the layer with weight \<open>[[2], [3]]\<close>
  (\<open>sym_out\<close>, two ambiguous units).
\<close>

definition sym_in :: symbolic_interval where
  "sym_in = \<lparr>sym_l = [[1/2, 1/2]], sym_u = [[3/2, 3/2]], sym_c = [[1, 1]],
             sym_idep = [[[1/2, 0], [0, 1/2]]], sym_edep = [], sym_edep_ind = [],
             sym_shape = [2], sym_n = 2, sym_batch_size = 1, sym_use_cuda = False\<rparr>"

definition sym_amb :: symbolic_interval where
  "sym_amb = \<lparr>sym_l = [[-1]], sym_u = [[1]], sym_c = [[0]],
             sym_idep = [[[1/2], [-1/2]]], sym_edep = [], sym_edep_ind = [],
             sym_shape = [1], sym_n = 1, sym_batch_size = 1, sym_use_cuda = False\<rparr>"

definition sym_relu :: symbolic_interval where
  "sym_relu = \<lparr>sym_l = [[-1]], sym_u = [[1]], sym_c = [[1/4]],
             sym_idep = [[[1/4], [-1/4]]], sym_edep = [[[1/4]]], sym_edep_ind = [[[1]]],
             sym_shape = [1], sym_n = 1, sym_batch_size = 1, sym_use_cuda = False\<rparr>"

definition sym_out :: symbolic_interval where
  "sym_out = \<lparr>sym_l = [[-1, -3/2]], sym_u = [[2, 3]], sym_c = [[1/2, 3/4]],
             sym_idep = [[[1/2, 3/4], [-1/2, -3/4]]], sym_edep = [[[1/2, 3/4]]],
             sym_edep_ind = [[[1]]],
             sym_shape = [2], sym_n = 2, sym_batch_size = 1, sym_use_cuda = False\<rparr>"

definition sym_out_relu :: symbolic_interval where
  "sym_out_relu = \<lparr>sym_l = [[-1, -3/2]], sym_u = [[2, 3]], sym_c = [[2/3, 1]],
             sym_idep = [[[1/3, 1/2], [-1/3, -1/2]]],
             sym_edep = [[[1/3, 1/2]], [[1/3, 0], [0, 1/2]]],
             sym_edep_ind = [[[1]], [[1], [1]]],
             sym_shape = [2], sym_n = 2, sym_batch_size = 1, sym_use_cuda = False\<rparr>"

text \<open>
  A symbolic interval over one sample of one channel of one pixel, with one error row.
\<close>

definition sym_conv_in :: symbolic_interval where
  "sym_conv_in = \<lparr>sym_l = [[-1/2]], sym_u = [[5/2]], sym_c = [[1]],
             sym_idep = [[[1]]], sym_edep = [[[1/2]]], sym_edep_ind = [[[1]]],
             sym_shape = [1, 1, 1], sym_n = 1, sym_batch_size = 1, sym_use_cuda = False\<rparr>"

definition sym_conv_out :: symbolic_interval where
  "sym_conv_out = \<lparr>sym_l = [[-4]], sym_u = [[2]], sym_c = [[-1]],
             sym_idep = [[[-2]]], sym_edep = [[[-1]]], sym_edep_ind = [[[1]]],
             sym_shape = [1, 1, 1], sym_n = 1, sym_batch_size = 1, sym_use_cuda = False\<rparr>"

text \<open>
  A symbolic interval whose unit has the lower bound 0 and the upper bound 1, and the
  result of the ReLU on it.
\<close>

definition sym_zero :: symbolic_interval where
  "sym_zero = \<lparr>sym_l = [[0]], sym_u = [[1]], sym_c = [[1/2]],
             sym_idep = [[[1/2]]], sym_edep = [], sym_edep_ind = [],
             sym_shape = [1], sym_n = 1, sym_batch_size = 1, sym_use_cuda = False\<rparr>"

definition sym_zero_relu :: symbolic_interval where
  "sym_zero_relu = \<lparr>sym_l = [[0]], sym_u = [[1]], sym_c = [[0]],
             sym_idep = [[[0]]], sym_edep = [[]], sym_edep_ind = [[]],
             sym_shape = [1], sym_n = 1, sym_batch_size = 1, sym_use_cuda = False\<rparr>"

text \<open>
  The network of the scenario, a batch of two samples, the box and the symbolic interval
  of radius 1/2 around it clamped to the range of the batch, and their images under the
  network.
\<close>

definition model_scn :: "module list" where
  "model_scn = [Linear [[1, -1]] (Some [0]), ReLU, Linear [[2], [3]] (Some [0, 0])]"

definition X_scn :: tensor where "X_scn = Flat [[1, 1], [0, 3]]"

definition box_scn :: interval where
  "box_scn = \<lparr>ix_l = Flat [[1/2, 1/2], [0, 5/2]], ix_u = Flat [[3/2, 3/2], [1/2, 3]],
     ix_c = Flat [[1, 1], [1/4, 11/4]], ix_e = Flat [[1/2, 1/2], [1/4, 1/4]],
     ix_mask = [], ix_use_cuda = False\<rparr>"

definition box_scn_out :: interval where
  "box_scn_out = \<lparr>ix_l = Flat [[0, 0], [0, 0]], ix_u = Flat [[2, 3], [0, 0]],
     ix_c = Flat [[1, 3 / 2], [0, 0]], ix_e = Flat [[1, 3 / 2], [0, 0]],
     ix_mask = [Flat [[1000000 / 2000001], [0]]], ix_use_cuda = False\<rparr>"

definition sym_scn :: symbolic_interval where
  "sym_scn = \<lparr>sym_l = [[1/2, 1/2], [0, 5/2]], sym_u = [[3/2, 3/2], [1/2, 3]],
     sym_c = [[1, 1], [1/4, 11/4]],
     sym_idep = [[[1/2, 0], [0, 1/2]], [[1/4, 0], [0, 1/4]]],
     sym_edep = [], sym_edep_ind = [],
     sym_shape = [2], sym_n = 2, sym_batch_size = 2, sym_use_cuda = False\<rparr>"

definition sym_scn_out :: symbolic_interval where
  "sym_scn_out = \<lparr>sym_l = [[-1, -3/2], [0, 0]], sym_u = [[2, 3], [0, 0]],
     sym_c = [[1/2, 3/4], [0, 0]],
     sym_idep = [[[1/2, 3/4], [-1/2, -3/4]], [[0, 0], [0, 0]]],
     sym_edep = [[[1/2, 3/4]]], sym_edep_ind = [[[1, 0]]],
     sym_shape = [2], sym_n = 2, sym_batch_size = 2, sym_use_cuda = False\<rparr>"


section \<open>Properties\<close>

subsection \<open>Elements of tensors\<close>

lemma telems_tmap: "telems (tmap f t) = map f (telems t)"
  by (cases t) (simp_all add: map_concat comp_def)

lemma map_eq_imp_list_all2:
  "map f xs = map g ys \<Longrightarrow> list_all2 (\<lambda>x y. f x = g y) xs ys"
proof (induction xs arbitrary: ys)
  case Nil
  then show ?case by simp
next
  case (Cons x xs)
  then show ?case by (cases ys) auto
qed

lemma concat_map2_level:
  assumes "list_all2 (\<lambda>r s. length r = length s) a b"
  shows "concat (map2 (map2 f) a b) = map2 f (concat a) (concat b)"
  using assms by (induction rule: list_all2_induct) simp_all

lemma zero_map_shape1:
  "map (\<lambda>x. 0::real) r = map (\<lambda>x. 0) s \<Longrightarrow> length r = length s"
  by (metis length_map)

lemma shape2:
  "map (map (\<lambda>x. 0::real)) a = map (map (\<lambda>x. 0)) b \<Longrightarrow>
   list_all2 (\<lambda>r s. length r = length s) a b"
  by (drule map_eq_imp_list_all2, erule list_all2_mono, erule zero_map_shape1)

lemma shape4:
  "map (map (map (map (\<lambda>x. 0::real)))) a = map (map (map (map (\<lambda>x. 0)))) b \<Longrightarrow>
   list_all2 (list_all2 (list_all2 (\<lambda>r s. length r = length s))) a b"
  apply (drule map_eq_imp_list_all2)
  apply (erule list_all2_mono)
  apply (drule map_eq_imp_list_all2)
  apply (erule list_all2_mono)
  apply (erule shape2)
  done

lemma len_concat2:
  assumes "list_all2 (\<lambda>r s. length r = length s) x y"
  shows "length (concat x) = length (concat y)"
  using assms by (induction rule: list_all2_induct) simp_all

lemma concat3_map2:
  assumes "list_all2 (list_all2 (\<lambda>r s. length r = length s)) a b"
  shows "concat (map concat (map2 (map2 (map2 f)) a b)) =
         map2 f (concat (map concat a)) (concat (map concat b))"
  using assms
proof (induction rule: list_all2_induct)
  case Nil
  then show ?case by simp
next
  case (Cons x xs y ys)
  have h: "concat (map2 (map2 f) x y) = map2 f (concat x) (concat y)"
    using Cons.hyps(1) by (rule concat_map2_level)
  have l: "length (concat x) = length (concat y)"
    using Cons.hyps(1) by (rule len_concat2)
  show ?case using Cons.IH h l by simp
qed

lemma len_concat3:
  assumes "list_all2 (list_all2 (\<lambda>r s. length r = length s)) x y"
  shows "length (concat (map concat x)) = length (concat (map concat y))"
  using assms by (induction rule: list_all2_induct) (simp_all add: len_concat2)

lemma concat4_map2:
  assumes "list_all2 (list_all2 (list_all2 (\<lambda>r s. length r = length s))) a b"
  shows "concat (map (\<lambda>s. concat (map concat s)) (map2 (map2 (map2 (map2 f))) a b)) =
         map2 f (concat (map (\<lambda>s. concat (map concat s)) a))
                (concat (map (\<lambda>s. concat (map concat s)) b))"
  using assms
proof (induction rule: list_all2_induct)
  case Nil
  then show ?case by simp
next
  case (Cons x xs y ys)
  have h: "concat (map concat (map2 (map2 (map2 f)) x y)) =
           map2 f (concat (map concat x)) (concat (map concat y))"
    using Cons.hyps(1) by (rule concat3_map2)
  have l: "length (concat (map concat x)) = length (concat (map concat y))"
    using Cons.hyps(1) by (rule len_concat3)
  show ?case using Cons.IH h l by simp
qed

lemma telems_tmap2:
  assumes "same_shape a b"
  shows "telems (tmap2 f a b) = map2 f (telems a) (telems b)"
proof (cases a)
  case (Flat x)
  note a = this
  show ?thesis
  proof (cases b)
    case (Flat y)
    with a assms have "list_all2 (\<lambda>r s. length r = length s) x y"
      by (simp add: same_shape_def shape2)
    then show ?thesis using a Flat by (simp add: concat_map2_level)
  next
    case (Spatial y)
    with a assms show ?thesis by (simp add: same_shape_def)
  qed
next
  case (Spatial x)
  note a = this
  show ?thesis
  proof (cases b)
    case (Flat y)
    with a assms show ?thesis by (simp add: same_shape_def)
  next
    case (Spatial y)
    with a assms have "list_all2 (list_all2 (list_all2 (\<lambda>r s. length r = length s))) x y"
      by (simp add: same_shape_def shape4)
    from concat4_map2 [OF this, of f] show ?thesis using a Spatial by simp
  qed
qed

subsection \<open>Affine layers on a box\<close>

text \<open>
  C5. On a box, the Dense and the Conv2d transfer function compute the new center by the
  layer with its bias, the new radius by the layer with the absolute values of its weight
  and no bias, and set the bounds to center minus radius and center plus radius.
\<close>

theorem box_affine_transfer:
  "(Interval_Dense_forward (Linear W bias) (Box ix) = Inr r \<longrightarrow>
      (\<exists>c' e' ix'. r = Box ix' \<and>
         F_linear (ix_c ix) W bias = Inr c' \<and>
         F_linear (ix_e ix) (map (map abs) W) None = Inr e' \<and>
         ix_l ix' = tmap2 (-) c' e' \<and> ix_u ix' = tmap2 (+) c' e')) \<and>
   (Interval_Conv2d_forward (Conv2d K kbias stride padding) (Box jx) = Inr q \<longrightarrow>
      (\<exists>c' e' jx'. q = Box jx' \<and>
         F_conv2d (ix_c jx) K kbias stride padding = Inr c' \<and>
         F_conv2d (ix_e jx) (map (map (map (map abs))) K) None stride padding = Inr e' \<and>
         ix_l jx' = tmap2 (-) c' e' \<and> ix_u jx' = tmap2 (+) c' e'))"
  by (auto simp: Interval_Dense_box_def Interval_Conv2d_box_def update_lu_def
        weight_abs_def weight4_abs_def split: sum.splits if_splits)

lemma dense_box_in:
  "Interval_Dense_forward (Linear [[1, -1]] (Some [0])) (Box box_in) =
   Inr (Box (box_in\<lparr>ix_l := Flat [[-1]], ix_u := Flat [[1]],
                     ix_c := Flat [[0]], ix_e := Flat [[1]]\<rparr>))"
  by (simp add: box_in_def Interval_Dense_box_def update_lu_def linear_ok_def F_linear_row_def
        mat_vec_def dot_def weight_abs_def same_shape_def bounds_ok_def)

lemma conv_conv_in:
  "Interval_Conv2d_forward (Conv2d [[[[-2]]]] (Some [1]) (1, 1) (0, 0)) (Box conv_in) =
   Inr (Box (conv_in\<lparr>ix_l := Spatial [[[[-3]]]], ix_u := Spatial [[[[1]]]],
                      ix_c := Spatial [[[[-1]]]], ix_e := Spatial [[[[2]]]]\<rparr>))"
  by (simp add: conv_in_def Interval_Conv2d_box_def update_lu_def conv2d_batch_def conv_ok_def
        conv2d_sample_def conv_out_size_def padded_at_def dim1_def weight4_abs_def
        same_shape_def bounds_ok_def)

theorem box_affine_transfer_witness:
  "(\<exists>ix'. Interval_Dense_forward (Linear [[1, -1]] (Some [0])) (Box box_in) = Inr (Box ix') \<and>
      F_linear (ix_c box_in) [[1, -1]] (Some [0]) = Inr (Flat [[0]]) \<and>
      F_linear (ix_e box_in) [[1, 1]] None = Inr (Flat [[1]]) \<and>
      ix_l ix' = Flat [[-1]] \<and> ix_u ix' = Flat [[1]]) \<and>
   (\<exists>jx'. Interval_Conv2d_forward (Conv2d [[[[-2]]]] (Some [1]) (1, 1) (0, 0)) (Box conv_in)
             = Inr (Box jx') \<and>
      F_conv2d (ix_c conv_in) [[[[-2]]]] (Some [1]) (1, 1) (0, 0) = Inr (Spatial [[[[-1]]]]) \<and>
      F_conv2d (ix_e conv_in) [[[[2]]]] None (1, 1) (0, 0) = Inr (Spatial [[[[2]]]]) \<and>
      ix_l jx' = Spatial [[[[-3]]]] \<and> ix_u jx' = Spatial [[[[1]]]])"
proof -
  note t = box_affine_transfer [of "[[1, -1]]" "Some [0]" box_in _ "[[[[-2]]]]" "Some [1]"
      "(1, 1)" "(0, 0)" conv_in]
  from t [THEN conjunct1, THEN mp, OF dense_box_in]
  obtain c' e' ix' where d:
    "F_linear (ix_c box_in) [[1, -1]] (Some [0]) = Inr c'"
    "F_linear (ix_e box_in) (map (map abs) [[1, -1]]) None = Inr e'"
    "Interval_Dense_forward (Linear [[1, -1]] (Some [0])) (Box box_in) = Inr (Box ix')"
    "ix_l ix' = tmap2 (-) c' e'" "ix_u ix' = tmap2 (+) c' e'"
    using dense_box_in by auto
  from t [THEN conjunct2, THEN mp, OF conv_conv_in]
  obtain k' f' jx' where c:
    "F_conv2d (ix_c conv_in) [[[[-2]]]] (Some [1]) (1, 1) (0, 0) = Inr k'"
    "F_conv2d (ix_e conv_in) (map (map (map (map abs))) [[[[-2]]]]) None (1, 1) (0, 0) = Inr f'"
    "Interval_Conv2d_forward (Conv2d [[[[-2]]]] (Some [1]) (1, 1) (0, 0)) (Box conv_in)
       = Inr (Box jx')"
    "ix_l jx' = tmap2 (-) k' f'" "ix_u jx' = tmap2 (+) k' f'"
    using conv_conv_in by auto
  have "c' = Flat [[0]]" "e' = Flat [[1]]"
    using d(1,2)
    by (simp_all add: box_in_def linear_ok_def F_linear_row_def mat_vec_def dot_def)
  moreover have "k' = Spatial [[[[-1]]]]" "f' = Spatial [[[[2]]]]"
    using c(1,2)
    by (simp_all add: conv_in_def conv2d_batch_def conv_ok_def conv2d_sample_def
          conv_out_size_def padded_at_def dim1_def)
  ultimately show ?thesis using d c by simp
qed

subsection \<open>Inputs that are no interval\<close>

lemma forward_PyNone: "forward net PyNone = Inr PyNone"
proof (induction net)
  case Nil
  then show ?case by simp
next
  case (Cons t net)
  then show ?case by (cases t) simp_all
qed

lemma call_layer_Other: "call_layer t Other = Inr PyNone"
proof (cases t)
  case (Interval_Dense m)
  then show ?thesis by (cases m) simp_all
next
  case (Interval_ReLU m)
  then show ?thesis by simp
next
  case (Interval_Conv2d m)
  then show ?thesis by (cases m) simp_all
next
  case Interval_Flatten
  then show ?thesis by simp
qed

text \<open>
  C10. On an input that is neither a box nor a symbolic interval, every transfer function
  returns \<^verbatim>\<open>None\<close> without raising, and \<^verbatim>\<open>None\<close> is such an input itself: the
  driver hands \<^verbatim>\<open>None\<close> to every later layer and returns it.
\<close>

theorem non_interval_input_gives_None:
  "Interval_Dense_forward layer Other = Inr PyNone \<and>
   Interval_Conv2d_forward layer Other = Inr PyNone \<and>
   Interval_ReLU_forward Other = Inr PyNone \<and>
   Interval_Flatten_forward Other = Inr PyNone \<and>
   Interval_Dense_forward layer PyNone = Inr PyNone \<and>
   Interval_Conv2d_forward layer PyNone = Inr PyNone \<and>
   Interval_ReLU_forward PyNone = Inr PyNone \<and>
   Interval_Flatten_forward PyNone = Inr PyNone \<and>
   call_layer t Other = Inr PyNone \<and>
   forward (t # net) Other = Inr PyNone \<and>
   forward (t # net) PyNone = Inr PyNone"
proof -
  have d: "Interval_Dense_forward layer Other = Inr PyNone"
          "Interval_Dense_forward layer PyNone = Inr PyNone"
    by (cases layer; simp)+
  have c: "Interval_Conv2d_forward layer Other = Inr PyNone"
          "Interval_Conv2d_forward layer PyNone = Inr PyNone"
    by (cases layer; simp)+
  show ?thesis using d c by (simp add: forward_PyNone call_layer_Other)
qed

subsection \<open>Shapes are preserved by the elementwise operations\<close>

lemma map_map2_cong:
  assumes "list_all2 P a b" and "\<And>x y. P x y \<Longrightarrow> g (h x y) = k x"
  shows "map g (map2 h a b) = map k a"
  using assms by (induction rule: list_all2_induct) simp_all

lemma zero_map2:
  "length r = length s \<Longrightarrow> map (\<lambda>x. 0::real) (map2 f r s) = map (\<lambda>x. 0) r"
  by (induction r s rule: list_induct2) simp_all

lemma shape_tmap [simp]: "tmap (\<lambda>x. 0) (tmap f a) = tmap (\<lambda>x. 0) a"
  by (cases a) (simp_all add: comp_def)

lemma zero_level2:
  assumes "list_all2 (\<lambda>r s. length r = length s) p q"
  shows "map (map (\<lambda>x. 0)) (map2 (map2 f) p q) = map (map (\<lambda>x. 0::real)) p"
  by (rule map_map2_cong [OF assms]) (rule zero_map2)

lemma zero_level3:
  assumes "list_all2 (list_all2 (\<lambda>r s. length r = length s)) p q"
  shows "map (map (map (\<lambda>x. 0))) (map2 (map2 (map2 f)) p q) = map (map (map (\<lambda>x. 0::real))) p"
  by (rule map_map2_cong [OF assms]) (rule zero_level2)

lemma zero_level4:
  assumes "list_all2 (list_all2 (list_all2 (\<lambda>r s. length r = length s))) p q"
  shows "map (map (map (map (\<lambda>x. 0)))) (map2 (map2 (map2 (map2 f))) p q)
       = map (map (map (map (\<lambda>x. 0::real)))) p"
  by (rule map_map2_cong [OF assms]) (rule zero_level3)

lemma shape_tmap2:
  assumes "same_shape a b"
  shows "tmap (\<lambda>x. 0) (tmap2 f a b) = tmap (\<lambda>x. 0) a"
proof (cases a)
  case (Flat x)
  note a = this
  show ?thesis
  proof (cases b)
    case (Flat y)
    with a assms have "list_all2 (\<lambda>r s. length r = length s) x y"
      by (simp add: same_shape_def shape2)
    from zero_level2 [OF this, of f] show ?thesis using a Flat by simp
  next
    case (Spatial y)
    with a assms show ?thesis by (simp add: same_shape_def)
  qed
next
  case (Spatial x)
  note a = this
  show ?thesis
  proof (cases b)
    case (Flat y)
    with a assms show ?thesis by (simp add: same_shape_def)
  next
    case (Spatial y)
    with a assms have s: "list_all2 (list_all2 (list_all2 (\<lambda>r s. length r = length s))) x y"
      by (simp add: same_shape_def shape4)
    from zero_level4 [OF this, of f] show ?thesis using a Spatial by simp
  qed
qed

lemma same_shape_length: "same_shape a b \<Longrightarrow> length (telems a) = length (telems b)"
proof -
  assume "same_shape a b"
  then have "telems (tmap (\<lambda>x. 0) a) = telems (tmap (\<lambda>x. 0) b)" by (simp add: same_shape_def)
  then have "map (\<lambda>x. 0::real) (telems a) = map (\<lambda>x. 0) (telems b)" by (simp add: telems_tmap)
  then show ?thesis by (rule zero_map_shape1)
qed


lemma same_shape_refl [simp]: "same_shape a a" by (simp add: same_shape_def)

lemma same_shape_tmap_l [simp]: "same_shape (tmap f a) b = same_shape a b"
  by (simp add: same_shape_def)

lemma same_shape_tmap_r [simp]: "same_shape a (tmap f b) = same_shape a b"
  by (simp add: same_shape_def)

lemma same_shape_tmap2_l: "same_shape a b \<Longrightarrow> same_shape (tmap2 f a b) d = same_shape a d"
  by (simp add: same_shape_def shape_tmap2)

lemma same_shape_tmap2_r: "same_shape a b \<Longrightarrow> same_shape d (tmap2 f a b) = same_shape d a"
  by (simp add: same_shape_def shape_tmap2)

lemma same_shape_sym: "same_shape a b \<Longrightarrow> same_shape b a"
  by (simp add: same_shape_def)

lemma box_denominators_pos:
  assumes "bounds_ok lower upper"
  shows "list_all (\<lambda>d. 0 < d) (telems (box_denominators lower upper))"
  using assms
  by (auto simp: bounds_ok_def box_denominators_def telems_tmap list_all_iff)

lemma box_mask_finite:
  assumes "bounds_ok lower upper"
  shows "box_mask lower upper \<noteq> Inl NotFinite"
proof -
  have "list_all (\<lambda>d. d \<noteq> 0) (telems (box_denominators lower upper))"
    using box_denominators_pos [OF assms] by (auto simp: list_all_iff)
  then show ?thesis by (simp add: box_mask_def tdiv_def Let_def)
qed

lemma update_lu_finite: "update_lu ix lo up \<noteq> Inl NotFinite"
  by (simp add: update_lu_def)

lemma relu_box_finite:
  assumes "bounds_ok (ix_l ix) (ix_u ix)"
  shows "Interval_ReLU_forward (Box ix) \<noteq> Inl NotFinite"
  using box_mask_finite [OF assms]
  by (cases "box_mask (ix_l ix) (ix_u ix)"; cases "update_lu (ix\<lparr>ix_mask := ix_mask ix @ [projr (box_mask (ix_l ix) (ix_u ix))]\<rparr>)
            (tmap relu (ix_l ix)) (tmap relu (ix_u ix))")
     (auto simp: Interval_ReLU_box_def update_lu_finite)

lemma sym_denominators_pos: "list_all (\<lambda>d. 0 < d) (sym_denominators lower upper)"
  by (auto simp: sym_denominators_def appr_cond_def list_all_iff)

lemma relu_sym_finite: "Interval_ReLU_forward (Sym sx) \<noteq> Inl NotFinite"
proof -
  have "list_all (\<lambda>d. d \<noteq> 0) (sym_denominators (sym_l sx) (sym_u sx))"
    using sym_denominators_pos [of "sym_l sx" "sym_u sx"] by (auto simp: list_all_iff)
  then show ?thesis by (simp add: Interval_ReLU_sym_def Let_def)
qed

lemma box_degenerate_unit:
  assumes sh: "same_shape lower upper"
    and i: "i < length (telems lower)"
    and eq: "telems lower ! i = telems upper ! i"
  shows "telems (box_denominators lower upper) ! i = 0.000001"
    and "telems (box_appr_condition lower upper) ! i = 0"
    and "box_mask lower upper = Inr msk \<Longrightarrow> telems msk ! i = indicator (telems upper ! i > 0)"
proof -
  let ?z = "\<lambda>x::real. 0::real"
  let ?den = "box_denominators lower upper"
  let ?ap = "box_appr_condition lower upper"
  let ?q = "tmap2 (/) upper ?den"
  let ?m1 = "tmap2 (*) ?ap ?q"
  let ?m2 = "tmap2 (-) (tmap (\<lambda>mk. mk + 1) ?m1) ?ap"
  let ?pos = "tmap (\<lambda>up. indicator (up > 0)) upper"
  have len: "length (telems upper) = length (telems lower)"
    using same_shape_length [OF sh] by simp
  have sh': "same_shape upper lower" using sh by (rule same_shape_sym)
  have eu: "tmap ?z upper = tmap ?z lower" using sh by (simp add: same_shape_def)
  have eden: "tmap ?z ?den = tmap ?z lower"
    by (simp add: box_denominators_def shape_tmap2 [OF sh'] eu)
  have sap: "same_shape (tmap (\<lambda>lo. indicator (lo < 0)) lower) (tmap (\<lambda>up. indicator (up > 0)) upper)"
    by (simp add: same_shape_def eu)
  have eap: "tmap ?z ?ap = tmap ?z lower"
    by (simp add: box_appr_condition_def shape_tmap2 [OF sap])
  have sq: "same_shape upper ?den" by (simp add: same_shape_def eu eden)
  have eq': "tmap ?z ?q = tmap ?z lower" by (simp add: shape_tmap2 [OF sq] eu)
  have s1: "same_shape ?ap ?q" by (simp add: same_shape_def eap eq')
  have em1: "tmap ?z ?m1 = tmap ?z lower" by (simp add: shape_tmap2 [OF s1] eap)
  have s2: "same_shape (tmap (\<lambda>mk. mk + 1) ?m1) ?ap" by (simp add: same_shape_def em1 eap)
  have em2: "tmap ?z ?m2 = tmap ?z lower" by (simp add: shape_tmap2 [OF s2] em1)
  have s3: "same_shape ?m2 ?pos" by (simp add: same_shape_def em2 eu)
  have tden: "telems ?den = map (\<lambda>d. d + 0.000001) (map2 (-) (telems upper) (telems lower))"
    by (simp add: box_denominators_def telems_tmap telems_tmap2 [OF sh'])
  have tap: "telems ?ap = map2 (*) (map (\<lambda>lo. indicator (lo < 0)) (telems lower))
                                  (map (\<lambda>up. indicator (up > 0)) (telems upper))"
    by (simp add: box_appr_condition_def telems_tmap2 [OF sap] telems_tmap)
  show d: "telems ?den ! i = 0.000001"
    using i len eq by (simp add: tden)
  show a: "telems ?ap ! i = 0"
    using i len eq by (simp add: tap indicator_def)
  assume m: "box_mask lower upper = Inr msk"
  then have msk: "msk = tmap2 (*) ?m2 ?pos"
    by (auto simp: box_mask_def tdiv_def Let_def split: if_splits)
  have la: "length (telems ?ap) = length (telems lower)"
    using len by (simp add: tap)
  have tq: "telems ?q = map2 (/) (telems upper) (telems ?den)"
    by (rule telems_tmap2 [OF sq])
  have lq: "length (telems ?q) = length (telems lower)"
    using len by (simp add: tq tden)
  have tm1: "telems ?m1 = map2 (*) (telems ?ap) (telems ?q)"
    by (rule telems_tmap2 [OF s1])
  have tm2: "telems ?m2 = map2 (-) (map (\<lambda>mk. mk + 1) (telems ?m1)) (telems ?ap)"
    by (simp add: telems_tmap2 [OF s2] telems_tmap)
  have tm: "telems msk = map2 (*) (telems ?m2) (map (\<lambda>up. indicator (up > 0)) (telems upper))"
    by (simp add: msk telems_tmap2 [OF s3] telems_tmap)
  have "telems ?m1 ! i = 0" using i la lq a by (simp add: tm1)
  then have "telems ?m2 ! i = 1" using i la lq a by (simp add: tm2 tm1)
  then show "telems msk ! i = indicator (telems upper ! i > 0)"
    using i la lq len by (simp add: tm tm2 tm1)
qed



subsection \<open>The ReLU on a box\<close>

lemma box_mask_amb: "box_mask (Flat [[-1]]) (Flat [[1]]) = Inr (Flat [[1000000 / 2000001]])"
  by (simp add: box_mask_def tdiv_def box_denominators_def box_appr_condition_def indicator_def Let_def)

lemma relu_amb_box:
  "Interval_ReLU_forward (Box amb_box) =
     Inr (Box \<lparr>ix_l = Flat [[0]], ix_u = Flat [[1]], ix_c = Flat [[1/2]],
              ix_e = Flat [[1/2]], ix_mask = [Flat [[1000000 / 2000001]]], ix_use_cuda = False\<rparr>)"
  by (simp add: amb_box_def Interval_ReLU_box_def box_mask_amb update_lu_def same_shape_def
        bounds_ok_def relu_def)

text \<open>
  C1, as stated, fails: on the box \<open>[-1, 1]\<close> the ReLU returns the bounds \<open>[0, 1]\<close>, the
  elementwise relu of the old bounds, and not the bounds \<open>[-\<lambda>, \<lambda>]\<close> recomputed from the
  center and radius scaled by the slope \<open>\<lambda>\<close> of the mask.
\<close>

theorem box_relu_counterexample:
  "Interval_ReLU_forward (Box amb_box) =
     Inr (Box \<lparr>ix_l = Flat [[0]], ix_u = Flat [[1]], ix_c = Flat [[1/2]],
              ix_e = Flat [[1/2]], ix_mask = [Flat [[1000000 / 2000001]]], ix_use_cuda = False\<rparr>) \<and>
   box_mask (ix_l amb_box) (ix_u amb_box) = Inr (Flat [[1000000 / 2000001]]) \<and>
   (Flat [[0]], Flat [[1]]) = (tmap relu (ix_l amb_box), tmap relu (ix_u amb_box)) \<and>
   slope_scaled_bounds amb_box (Flat [[1000000 / 2000001]]) =
     (Flat [[- (1000000 / 2000001)]], Flat [[1000000 / 2000001]]) \<and>
   (Flat [[0]], Flat [[1]]) \<noteq> slope_scaled_bounds amb_box (Flat [[1000000 / 2000001]])"
proof -
  have s: "slope_scaled_bounds amb_box (Flat [[1000000 / 2000001]]) =
     (Flat [[- (1000000 / 2000001)]], Flat [[1000000 / 2000001]])"
    by (simp add: slope_scaled_bounds_def amb_box_def Let_def)
  have m: "box_mask (ix_l amb_box) (ix_u amb_box) = Inr (Flat [[1000000 / 2000001]])"
    using box_mask_amb by (simp add: amb_box_def)
  have r: "(Flat [[0]], Flat [[1]]) = (tmap relu (ix_l amb_box), tmap relu (ix_u amb_box))"
    by (simp add: amb_box_def relu_def)
  have ne: "(Flat [[0]], Flat [[1]]) \<noteq> slope_scaled_bounds amb_box (Flat [[1000000 / 2000001]])"
    by (simp add: s)
  show ?thesis by (intro conjI) (rule relu_amb_box m r s ne)+
qed

lemma map_sum_Inr_iff: "map_sum id f x = Inr r \<longleftrightarrow> (\<exists>y. x = Inr y \<and> r = f y)"
  by (cases x) auto

text \<open>
  C1, amended. On a box, the ReLU transfer function appends the slope mask to the list of
  masks and sets the bounds, through \<open>update_lu\<close>, to the elementwise relu of the old lower
  and upper bounds; the mask does not enter the bounds. The new lower bound of every unit
  is the relu of the old one, which for an ambiguous unit is 0.
\<close>

theorem box_relu_is_elementwise_relu:
  assumes "Interval_ReLU_forward (Box ix) = Inr r"
  shows "\<exists>ix' msk. r = Box ix' \<and> box_mask (ix_l ix) (ix_u ix) = Inr msk \<and>
           ix_mask ix' = ix_mask ix @ [msk] \<and>
           ix_l ix' = tmap relu (ix_l ix) \<and> ix_u ix' = tmap relu (ix_u ix) \<and>
           list_all2 (\<lambda>lo lo'. lo' = relu lo \<and> (lo < 0 \<longrightarrow> lo' = 0))
             (telems (ix_l ix)) (telems (ix_l ix'))"
proof -
  from assms obtain msk ix' where
    m: "box_mask (ix_l ix) (ix_u ix) = Inr msk" and
    u: "update_lu (ix\<lparr>ix_mask := ix_mask ix @ [msk]\<rparr>) (tmap relu (ix_l ix)) (tmap relu (ix_u ix)) = Inr ix'"
    and r: "r = Box ix'"
    by (auto simp: Interval_ReLU_box_def map_sum_Inr_iff split: sum.splits)
  from u have f: "ix_mask ix' = ix_mask ix @ [msk]" "ix_l ix' = tmap relu (ix_l ix)"
    "ix_u ix' = tmap relu (ix_u ix)"
    by (auto simp: update_lu_def split: if_splits)
  have "list_all2 (\<lambda>lo lo'. lo' = relu lo \<and> (lo < 0 \<longrightarrow> lo' = 0))
          (telems (ix_l ix)) (map relu (telems (ix_l ix)))"
    by (simp add: list_all2_conv_all_nth relu_def)
  then show ?thesis using m r f by (simp add: telems_tmap)
qed

theorem box_relu_is_elementwise_relu_witness:
  "Interval_ReLU_forward (Box amb_box) =
     Inr (Box \<lparr>ix_l = Flat [[0]], ix_u = Flat [[1]], ix_c = Flat [[1/2]],
              ix_e = Flat [[1/2]], ix_mask = [Flat [[1000000 / 2000001]]], ix_use_cuda = False\<rparr>) \<and>
   (\<exists>(ix'::interval) msk. box_mask (ix_l amb_box) (ix_u amb_box) = Inr msk \<and>
       ix_mask ix' = ix_mask amb_box @ [msk] \<and>
       ix_l ix' = tmap relu (ix_l amb_box) \<and> ix_u ix' = tmap relu (ix_u amb_box) \<and>
       ix_l ix' = Flat [[0]] \<and>
       list_all2 (\<lambda>lo lo'. lo' = relu lo \<and> (lo < 0 \<longrightarrow> lo' = 0))
          (telems (ix_l amb_box)) (telems (ix_l ix')))"
proof -
  from box_relu_is_elementwise_relu [OF relu_amb_box]
  obtain ix' msk where h0: "Box \<lparr>ix_l = Flat [[0]], ix_u = Flat [[1]], ix_c = Flat [[1/2]],
              ix_e = Flat [[1/2]], ix_mask = [Flat [[1000000 / 2000001]]], ix_use_cuda = False\<rparr>
              = Box ix'" and h:
    "box_mask (ix_l amb_box) (ix_u amb_box) = Inr msk"
    "ix_mask ix' = ix_mask amb_box @ [msk]"
    "ix_l ix' = tmap relu (ix_l amb_box)" "ix_u ix' = tmap relu (ix_u amb_box)"
    "list_all2 (\<lambda>lo lo'. lo' = relu lo \<and> (lo < 0 \<longrightarrow> lo' = 0))
          (telems (ix_l amb_box)) (telems (ix_l ix'))"
    by blast
  have z: "ix_l ix' = Flat [[0]]" using h(3) by (simp add: amb_box_def relu_def)
  show ?thesis
  proof (intro conjI exI)
    show "box_mask (ix_l amb_box) (ix_u amb_box) = Inr msk" by (rule h(1))
    show "ix_mask ix' = ix_mask amb_box @ [msk]" by (rule h(2))
    show "ix_l ix' = tmap relu (ix_l amb_box)" by (rule h(3))
    show "ix_u ix' = tmap relu (ix_u amb_box)" by (rule h(4))
    show "ix_l ix' = Flat [[0]]" by (rule z)
    show "list_all2 (\<lambda>lo lo'. lo' = relu lo \<and> (lo < 0 \<longrightarrow> lo' = 0))
          (telems (ix_l amb_box)) (telems (ix_l ix'))" by (rule h(5))
  qed (rule relu_amb_box)
qed


subsection \<open>No division by zero in the ReLU\<close>

text \<open>
  C6. The ReLU never divides by zero. In the symbolic branch only the ambiguous units are
  divided, by \<open>upper - lower > 0\<close>; in the box branch every unit is divided, by
  \<open>upper - lower + 0.000001\<close>, which is positive on every box with \<open>lower \<le> upper\<close>. A
  unit with \<open>upper = lower\<close> is not ambiguous in either branch: its slope is 1 when the
  bound is positive and 0 otherwise, and its box denominator is \<open>0.000001\<close>.
\<close>

theorem relu_never_divides_by_zero:
  "(bounds_ok (ix_l ix) (ix_u ix) \<longrightarrow>
      Interval_ReLU_forward (Box ix) \<noteq> Inl NotFinite \<and>
      list_all (\<lambda>d. 0 < d) (telems (box_denominators (ix_l ix) (ix_u ix)))) \<and>
   Interval_ReLU_forward (Sym sx) \<noteq> Inl NotFinite \<and>
   list_all (\<lambda>d. 0 < d) (sym_denominators (sym_l sx) (sym_u sx)) \<and>
   \<not> appr_cond x x \<and> sym_mask_unit x x = indicator (x > 0) \<and>
   (same_shape lower upper \<and> i < length (telems lower) \<and>
    telems lower ! i = telems upper ! i \<longrightarrow>
      telems (box_denominators lower upper) ! i = 0.000001 \<and>
      telems (box_appr_condition lower upper) ! i = 0 \<and>
      (\<forall>msk. box_mask lower upper = Inr msk \<longrightarrow>
         telems msk ! i = indicator (telems upper ! i > 0)))"
proof -
  have a: "bounds_ok (ix_l ix) (ix_u ix) \<longrightarrow>
      Interval_ReLU_forward (Box ix) \<noteq> Inl NotFinite \<and>
      list_all (\<lambda>d. 0 < d) (telems (box_denominators (ix_l ix) (ix_u ix)))"
    using relu_box_finite [of ix] box_denominators_pos [of "ix_l ix" "ix_u ix"] by blast
  have b: "\<not> appr_cond x x" "sym_mask_unit x x = indicator (x > 0)"
    by (simp_all add: appr_cond_def sym_mask_unit_def)
  have c: "same_shape lower upper \<and> i < length (telems lower) \<and>
    telems lower ! i = telems upper ! i \<longrightarrow>
      telems (box_denominators lower upper) ! i = 0.000001 \<and>
      telems (box_appr_condition lower upper) ! i = 0 \<and>
      (\<forall>msk. box_mask lower upper = Inr msk \<longrightarrow>
         telems msk ! i = indicator (telems upper ! i > 0))"
    using box_degenerate_unit [of lower upper i] by blast
  show ?thesis
    using a b c relu_sym_finite [of sx] sym_denominators_pos [of "sym_l sx" "sym_u sx"]
    by blast
qed

lemma box_mask_deg:
  "box_mask (Flat [[2, -1]]) (Flat [[2, 3]]) = Inr (Flat [[1, 3000000 / 4000001]])"
  by (simp add: box_mask_def tdiv_def box_denominators_def box_appr_condition_def
        indicator_def Let_def)

theorem relu_never_divides_by_zero_witness:
  "bounds_ok (ix_l deg_box) (ix_u deg_box) \<and>
   Interval_ReLU_forward (Box deg_box) \<noteq> Inl NotFinite \<and>
   same_shape (ix_l deg_box) (ix_u deg_box) \<and>
   0 < length (telems (ix_l deg_box)) \<and>
   telems (ix_l deg_box) ! 0 = telems (ix_u deg_box) ! 0 \<and>
   telems (box_denominators (ix_l deg_box) (ix_u deg_box)) ! 0 = 0.000001 \<and>
   telems (box_appr_condition (ix_l deg_box) (ix_u deg_box)) ! 0 = 0 \<and>
   box_mask (ix_l deg_box) (ix_u deg_box) = Inr (Flat [[1, 3000000 / 4000001]]) \<and>
   telems (Flat [[1, 3000000 / 4000001]]) ! 0 = indicator (telems (ix_u deg_box) ! 0 > 0)"
proof -
  have b: "bounds_ok (ix_l deg_box) (ix_u deg_box)"
    by (simp add: deg_box_def bounds_ok_def)
  have s: "same_shape (ix_l deg_box) (ix_u deg_box)"
    by (simp add: deg_box_def same_shape_def)
  have i: "0 < length (telems (ix_l deg_box))"
          "telems (ix_l deg_box) ! 0 = telems (ix_u deg_box) ! 0"
    by (simp_all add: deg_box_def)
  have m: "box_mask (ix_l deg_box) (ix_u deg_box) = Inr (Flat [[1, 3000000 / 4000001]])"
    using box_mask_deg by (simp add: deg_box_def)
  note t = relu_never_divides_by_zero [of deg_box _ _ "ix_l deg_box" "ix_u deg_box" 0]
  from t b have f: "Interval_ReLU_forward (Box deg_box) \<noteq> Inl NotFinite" by blast
  from t s i have d: "telems (box_denominators (ix_l deg_box) (ix_u deg_box)) ! 0 = 0.000001"
      "telems (box_appr_condition (ix_l deg_box) (ix_u deg_box)) ! 0 = 0"
      "\<forall>msk. box_mask (ix_l deg_box) (ix_u deg_box) = Inr msk \<longrightarrow>
         telems msk ! 0 = indicator (telems (ix_u deg_box) ! 0 > 0)"
    by blast+
  from d(3) m have k: "telems (Flat [[1, 3000000 / 4000001]]) ! 0 =
       indicator (telems (ix_u deg_box) ! 0 > 0)" by blast
  show ?thesis by (intro conjI) (rule b f s i d(1) d(2) m k)+
qed

subsection \<open>The driver\<close>

lemma add_layer_append: "add_layer net layer = net @ add_layer [] layer"
  by (simp add: add_layer_def Let_def)

lemma foldl_add_layer: "foldl add_layer acc model = acc @ concat (map (add_layer []) model)"
proof (induction model arbitrary: acc)
  case Nil
  then show ?case by simp
next
  case (Cons layer model)
  show ?case using Cons [of "add_layer acc layer"] add_layer_append [of acc layer] by simp
qed

lemma forward_append:
  "forward (net1 @ net2) ix =
     (case forward net1 ix of Inl err \<Rightarrow> Inl err | Inr ix' \<Rightarrow> forward net2 ix')"
  by (induction net1 arbitrary: ix) (auto split: sum.splits)

lemma not_flatten_names:
  "\<not> str_in ''Flatten'' ''Linear''" "\<not> str_in ''Flatten'' ''ReLU''" "\<not> str_in ''Flatten'' ''Conv2d''"
  by simp_all


text \<open>
  C7. The driver creates, layer by layer and in order, one transfer function for a Linear,
  a ReLU, a Conv2d and a Flatten layer (a class whose name contains \<open>Flatten\<close>) and none
  for a layer of another kind; its forward pass applies the transfer functions in order,
  each to the result of the one before, and returns the last result.
\<close>

theorem driver:
  "Interval_network model = concat (map (add_layer []) model) \<and>
   (isinstance_Linear l1 \<longrightarrow> add_layer [] l1 = [Interval_Dense l1]) \<and>
   (isinstance_ReLU l2 \<longrightarrow> add_layer [] l2 = [Interval_ReLU l2]) \<and>
   (isinstance_Conv2d l3 \<longrightarrow> add_layer [] l3 = [Interval_Conv2d l3]) \<and>
   (str_in ''Flatten'' (class_name l4) \<longrightarrow> add_layer [] l4 = [Interval_Flatten]) \<and>
   (\<not> isinstance_Linear l5 \<and> \<not> isinstance_ReLU l5 \<and> \<not> isinstance_Conv2d l5 \<and>
      \<not> str_in ''Flatten'' (class_name l5) \<longrightarrow> add_layer [] l5 = []) \<and>
   forward [] ix = Inr ix \<and>
   forward (t # net) ix =
     (case call_layer t ix of Inl err \<Rightarrow> Inl err | Inr ix' \<Rightarrow> forward net ix') \<and>
   forward (net1 @ net2) ix =
     (case forward net1 ix of Inl err \<Rightarrow> Inl err | Inr ix' \<Rightarrow> forward net2 ix')"
proof -
  have a: "Interval_network model = concat (map (add_layer []) model)"
    using foldl_add_layer [of "[]" model] by (simp add: Interval_network_def)
  have l1: "isinstance_Linear l1 \<longrightarrow> add_layer [] l1 = [Interval_Dense l1]"
    by (cases l1) (simp_all add: add_layer_def)
  have l2: "isinstance_ReLU l2 \<longrightarrow> add_layer [] l2 = [Interval_ReLU l2]"
    by (cases l2) (simp_all add: add_layer_def)
  have l3: "isinstance_Conv2d l3 \<longrightarrow> add_layer [] l3 = [Interval_Conv2d l3]"
    by (cases l3) (simp_all add: add_layer_def)
  have l4: "str_in ''Flatten'' (class_name l4) \<longrightarrow> add_layer [] l4 = [Interval_Flatten]"
    by (cases l4) (simp_all add: add_layer_def)
  have l5: "\<not> isinstance_Linear l5 \<and> \<not> isinstance_ReLU l5 \<and> \<not> isinstance_Conv2d l5 \<and>
      \<not> str_in ''Flatten'' (class_name l5) \<longrightarrow> add_layer [] l5 = []"
    by (simp add: add_layer_def)
  show ?thesis using a l1 l2 l3 l4 l5 forward_append [of net1 net2 ix] by simp
qed

lemma network_ex: "Interval_network model_ex =
     [Interval_Dense (Linear [[1, -1]] (Some [0])), Interval_ReLU ReLU,
      Interval_Conv2d (Conv2d [[[[-2]]]] (Some [1]) (1, 1) (0, 0)), Interval_Flatten]"
  by (simp add: Interval_network_def model_ex_def add_layer_def)


theorem driver_witness:
  "Interval_network model_ex =
     [Interval_Dense (Linear [[1, -1]] (Some [0])), Interval_ReLU ReLU,
      Interval_Conv2d (Conv2d [[[[-2]]]] (Some [1]) (1, 1) (0, 0)), Interval_Flatten] \<and>
   isinstance_Linear (Linear [[1, -1]] (Some [0])) \<and>
   add_layer [] (Linear [[1, -1]] (Some [0])) = [Interval_Dense (Linear [[1, -1]] (Some [0]))] \<and>
   isinstance_ReLU ReLU \<and> add_layer [] ReLU = [Interval_ReLU ReLU] \<and>
   isinstance_Conv2d (Conv2d [[[[-2]]]] (Some [1]) (1, 1) (0, 0)) \<and>
   add_layer [] (Conv2d [[[[-2]]]] (Some [1]) (1, 1) (0, 0)) =
     [Interval_Conv2d (Conv2d [[[[-2]]]] (Some [1]) (1, 1) (0, 0))] \<and>
   str_in ''Flatten'' (class_name (Module ''Flatten'')) \<and>
   add_layer [] (Module ''Flatten'') = [Interval_Flatten] \<and>
   \<not> str_in ''Flatten'' (class_name (Module ''Dropout'')) \<and>
   add_layer [] (Module ''Dropout'') = [] \<and>
   forward [Interval_Dense (Linear [[1, -1]] (Some [0])), Interval_ReLU ReLU] (Box box_in) =
     Interval_ReLU_forward (Box (box_in\<lparr>ix_l := Flat [[-1]], ix_u := Flat [[1]],
                     ix_c := Flat [[0]], ix_e := Flat [[1]]\<rparr>))"
proof -
  note t = driver [of model_ex "Linear [[1, -1]] (Some [0])" ReLU
      "Conv2d [[[[-2]]]] (Some [1]) (1, 1) (0, 0)" "Module ''Flatten''" "Module ''Dropout''"
      "Box box_in" "Interval_Dense (Linear [[1, -1]] (Some [0]))" "[Interval_ReLU ReLU]"]
  have n: "Interval_network model_ex = concat (map (add_layer []) model_ex)" using t by blast
  have i: "isinstance_Linear (Linear [[1, -1]] (Some [0]))" "isinstance_ReLU ReLU"
    "isinstance_Conv2d (Conv2d [[[[-2]]]] (Some [1]) (1, 1) (0, 0))"
    "str_in ''Flatten'' (class_name (Module ''Flatten''))"
    "\<not> isinstance_Linear (Module ''Dropout'') \<and> \<not> isinstance_ReLU (Module ''Dropout'') \<and>
     \<not> isinstance_Conv2d (Module ''Dropout'') \<and>
     \<not> str_in ''Flatten'' (class_name (Module ''Dropout''))"
    by simp_all
  have a: "add_layer [] (Linear [[1, -1]] (Some [0])) = [Interval_Dense (Linear [[1, -1]] (Some [0]))]"
    "add_layer [] ReLU = [Interval_ReLU ReLU]"
    "add_layer [] (Conv2d [[[[-2]]]] (Some [1]) (1, 1) (0, 0)) =
       [Interval_Conv2d (Conv2d [[[[-2]]]] (Some [1]) (1, 1) (0, 0))]"
    "add_layer [] (Module ''Flatten'') = [Interval_Flatten]"
    "add_layer [] (Module ''Dropout'') = []"
    using t i by blast+
  have f: "forward [Interval_Dense (Linear [[1, -1]] (Some [0])), Interval_ReLU ReLU] (Box box_in) =
     (case call_layer (Interval_Dense (Linear [[1, -1]] (Some [0]))) (Box box_in) of
        Inl err \<Rightarrow> Inl err | Inr ix' \<Rightarrow> forward [Interval_ReLU ReLU] ix')"
    using t by blast
  have g: "forward [Interval_Dense (Linear [[1, -1]] (Some [0])), Interval_ReLU ReLU] (Box box_in) =
     Interval_ReLU_forward (Box (box_in\<lparr>ix_l := Flat [[-1]], ix_u := Flat [[1]],
                     ix_c := Flat [[0]], ix_e := Flat [[1]]\<rparr>))"
    unfolding f using dense_box_in by (simp split: sum.splits)
  have m: "Interval_network model_ex =
     [Interval_Dense (Linear [[1, -1]] (Some [0])), Interval_ReLU ReLU,
      Interval_Conv2d (Conv2d [[[[-2]]]] (Some [1]) (1, 1) (0, 0)), Interval_Flatten]"
    unfolding n by (simp add: model_ex_def add_layer_def)
  have d: "\<not> str_in ''Flatten'' (class_name (Module ''Dropout''))" by simp
  show ?thesis by (intro conjI) (rule m a g i d)+
qed


subsection \<open>Affine layers on a symbolic interval\<close>

lemma collect_Inr: "collect xs = Inr ys \<Longrightarrow> xs = map Inr ys"
proof (induction xs arbitrary: ys)
  case Nil
  then show ?case by simp
next
  case (Cons x xs)
  then show ?case by (auto split: sum.splits)
qed

lemma F_linear_row_None [simp]: "F_linear_row W None = mat_vec W"
  by (rule ext) (simp add: F_linear_row_def)

lemma collect_linear:
  assumes "collect (map (F_linear_mat W None) ms) = Inr r"
  shows "r = map (map (mat_vec W)) ms"
proof -
  from collect_Inr [OF assms] have e: "map (F_linear_mat W None) ms = map Inr r" .
  then have l: "length r = length ms" by (metis length_map)
  show ?thesis
  proof (rule nth_equalityI)
    show "length r = length (map (map (mat_vec W)) ms)" using l by simp
  next
    fix i assume i: "i < length r"
    from e have "map (F_linear_mat W None) ms ! i = map Inr r ! i" by simp
    with i l have "F_linear_mat W None (ms ! i) = Inr (r ! i)" by simp
    then have "r ! i = map (mat_vec W) (ms ! i)"
      by (auto simp: F_linear_mat_def split: if_splits)
    with i l show "r ! i = map (map (mat_vec W)) ms ! i" by simp
  qed
qed

lemma concretize_fields [simp]:
  "sym_c (concretize ix) = sym_c ix" "sym_idep (concretize ix) = sym_idep ix"
  "sym_edep (concretize ix) = sym_edep ix" "sym_edep_ind (concretize ix) = sym_edep_ind ix"
  "sym_n (concretize ix) = sym_n ix" "sym_shape (concretize ix) = sym_shape ix"
  "sym_batch_size (concretize ix) = sym_batch_size ix"
  by (simp_all add: concretize_def)

lemma dense_sym:
  assumes "Interval_Dense_sym W bias ix = Inr ix'"
  shows "sym_c ix' = map (F_linear_row W bias) (sym_c ix)"
    and "sym_idep ix' = map (map (mat_vec W)) (sym_idep ix)"
    and "sym_edep ix' = map (map (mat_vec W)) (sym_edep ix)"
    and "sym_edep_ind ix' = sym_edep_ind ix"
proof -
  from assms obtain c' idep' edep' and row :: vec where
    c: "F_linear_mat W bias (sym_c ix) = Inr c'" and
    i: "collect (map (F_linear_mat W None) (sym_idep ix)) = Inr idep'" and
    e: "collect (map (F_linear_mat W None) (sym_edep ix)) = Inr edep'" and
    r: "ix' = concretize (ix\<lparr>sym_c := c', sym_idep := idep', sym_edep := edep',
                               sym_shape := [length row], sym_n := length row\<rparr>)"
    by (auto simp: Interval_Dense_sym_def split: sum.splits list.splits)
  from c have c': "c' = map (F_linear_row W bias) (sym_c ix)"
    by (auto simp: F_linear_mat_def split: if_splits)
  show "sym_c ix' = map (F_linear_row W bias) (sym_c ix)" using r c' by simp
  show "sym_idep ix' = map (map (mat_vec W)) (sym_idep ix)" using r collect_linear [OF i] by simp
  show "sym_edep ix' = map (map (mat_vec W)) (sym_edep ix)" using r collect_linear [OF e] by simp
  show "sym_edep_ind ix' = sym_edep_ind ix" using r by simp
qed

lemma conv_sym:
  assumes "Interval_Conv2d_sym K kbias stride padding jx = Inr jx'"
  shows "\<exists>c4 i4 e4.
      conv_rows K kbias stride padding (sym_shape jx) (sym_c jx) = Inr c4 \<and>
      sym_c jx' = map flatten3 c4 \<and>
      map (conv_rows K None stride padding (sym_shape jx)) (sym_idep jx) = map Inr i4 \<and>
      sym_idep jx' = map (map flatten3) i4 \<and>
      map (conv_rows K None stride padding (sym_shape jx)) (sym_edep jx) = map Inr e4 \<and>
      sym_edep jx' = map (map flatten3) e4 \<and>
      sym_edep_ind jx' = sym_edep_ind jx"
proof -
  from assms obtain c' idep' edep' and s :: tensor3 where
    c: "conv_rows K kbias stride padding (sym_shape jx) (sym_c jx) = Inr c'" and
    i: "collect (map (conv_rows K None stride padding (sym_shape jx)) (sym_idep jx)) = Inr idep'" and
    e: "collect (map (conv_rows K None stride padding (sym_shape jx)) (sym_edep jx)) = Inr edep'" and
    r: "jx' = concretize (jx\<lparr>sym_c := map flatten3 c',
                               sym_idep := map (map flatten3) idep',
                               sym_edep := map (map flatten3) edep',
                               sym_shape := [length s, dim1 s, dim1 (concat s)],
                               sym_n := length (flatten3 s)\<rparr>)"
    by (auto simp: Interval_Conv2d_sym_def split: sum.splits list.splits)
  show ?thesis
    using c collect_Inr [OF i] collect_Inr [OF e] r by simp
qed

text \<open>
  C4. On a symbolic interval, the Dense and the Conv2d transfer function are exact: the
  center becomes the layer applied with its bias, the exact dependency and every error
  dependency become the layer applied without bias, and no error term is added: the list
  of error dependencies keeps its length and the owners are unchanged.
\<close>

theorem symbolic_affine_exact:
  "(Interval_Dense_forward (Linear W bias) (Sym ix) = Inr r \<longrightarrow>
      (\<exists>ix'. r = Sym ix' \<and>
         sym_c ix' = map (F_linear_row W bias) (sym_c ix) \<and>
         sym_idep ix' = map (map (mat_vec W)) (sym_idep ix) \<and>
         sym_edep ix' = map (map (mat_vec W)) (sym_edep ix) \<and>
         length (sym_edep ix') = length (sym_edep ix) \<and>
         sym_edep_ind ix' = sym_edep_ind ix)) \<and>
   F_linear_row W None x = mat_vec W x \<and>
   F_linear_row W (Some b) x = map2 (+) (mat_vec W x) b \<and>
   (Interval_Conv2d_forward (Conv2d K kbias stride padding) (Sym jx) = Inr q \<longrightarrow>
      (\<exists>jx' c4 i4 e4. q = Sym jx' \<and>
         conv_rows K kbias stride padding (sym_shape jx) (sym_c jx) = Inr c4 \<and>
         sym_c jx' = map flatten3 c4 \<and>
         map (conv_rows K None stride padding (sym_shape jx)) (sym_idep jx) = map Inr i4 \<and>
         sym_idep jx' = map (map flatten3) i4 \<and>
         map (conv_rows K None stride padding (sym_shape jx)) (sym_edep jx) = map Inr e4 \<and>
         sym_edep jx' = map (map flatten3) e4 \<and>
         length (sym_edep jx') = length (sym_edep jx) \<and>
         sym_edep_ind jx' = sym_edep_ind jx))"
proof -
  have d: "Interval_Dense_forward (Linear W bias) (Sym ix) = Inr r \<longrightarrow>
      (\<exists>ix'. r = Sym ix' \<and>
         sym_c ix' = map (F_linear_row W bias) (sym_c ix) \<and>
         sym_idep ix' = map (map (mat_vec W)) (sym_idep ix) \<and>
         sym_edep ix' = map (map (mat_vec W)) (sym_edep ix) \<and>
         length (sym_edep ix') = length (sym_edep ix) \<and>
         sym_edep_ind ix' = sym_edep_ind ix)"
    by (auto simp: map_sum_Inr_iff dense_sym)
  have c: "Interval_Conv2d_forward (Conv2d K kbias stride padding) (Sym jx) = Inr q \<longrightarrow>
      (\<exists>jx' c4 i4 e4. q = Sym jx' \<and>
         conv_rows K kbias stride padding (sym_shape jx) (sym_c jx) = Inr c4 \<and>
         sym_c jx' = map flatten3 c4 \<and>
         map (conv_rows K None stride padding (sym_shape jx)) (sym_idep jx) = map Inr i4 \<and>
         sym_idep jx' = map (map flatten3) i4 \<and>
         map (conv_rows K None stride padding (sym_shape jx)) (sym_edep jx) = map Inr e4 \<and>
         sym_edep jx' = map (map flatten3) e4 \<and>
         length (sym_edep jx') = length (sym_edep jx) \<and>
         sym_edep_ind jx' = sym_edep_ind jx)"
  proof
    assume "Interval_Conv2d_forward (Conv2d K kbias stride padding) (Sym jx) = Inr q"
    then obtain jx' where j: "Interval_Conv2d_sym K kbias stride padding jx = Inr jx'" "q = Sym jx'"
      by (auto simp: map_sum_Inr_iff)
    from conv_sym [OF j(1)] obtain c4 i4 e4 where h:
      "conv_rows K kbias stride padding (sym_shape jx) (sym_c jx) = Inr c4"
      "sym_c jx' = map flatten3 c4"
      "map (conv_rows K None stride padding (sym_shape jx)) (sym_idep jx) = map Inr i4"
      "sym_idep jx' = map (map flatten3) i4"
      "map (conv_rows K None stride padding (sym_shape jx)) (sym_edep jx) = map Inr e4"
      "sym_edep jx' = map (map flatten3) e4"
      "sym_edep_ind jx' = sym_edep_ind jx"
      by blast
    have "length e4 = length (sym_edep jx)" using h(5) by (metis length_map)
    then have "length (sym_edep jx') = length (sym_edep jx)" using h(6) by simp
    then show "\<exists>jx' c4 i4 e4. q = Sym jx' \<and>
         conv_rows K kbias stride padding (sym_shape jx) (sym_c jx) = Inr c4 \<and>
         sym_c jx' = map flatten3 c4 \<and>
         map (conv_rows K None stride padding (sym_shape jx)) (sym_idep jx) = map Inr i4 \<and>
         sym_idep jx' = map (map flatten3) i4 \<and>
         map (conv_rows K None stride padding (sym_shape jx)) (sym_edep jx) = map Inr e4 \<and>
         sym_edep jx' = map (map flatten3) e4 \<and>
         length (sym_edep jx') = length (sym_edep jx) \<and>
         sym_edep_ind jx' = sym_edep_ind jx"
      using j(2) h by blast
  qed
  have f: "F_linear_row W (Some b) x = map2 (+) (mat_vec W x) b" by (simp add: F_linear_row_def)
  show ?thesis using d c f by simp
qed


lemma dense_sym_relu:
  "Interval_Dense_forward (Linear [[2], [3]] (Some [0, 0])) (Sym sym_relu) = Inr (Sym sym_out)"
  by (simp add: sym_relu_def sym_out_def Interval_Dense_sym_def F_linear_mat_def linear_ok_def
      F_linear_row_def mat_vec_def dot_def concretize_def sym_radius_def abs_col_sum_def
      owned_abs_sum_def)

lemma conv_sym_conv_in:
  "Interval_Conv2d_forward (Conv2d [[[[-2]]]] (Some [1]) (1, 1) (0, 0)) (Sym sym_conv_in) =
     Inr (Sym sym_conv_out)"
  by (simp add: sym_conv_in_def sym_conv_out_def Interval_Conv2d_sym_def
      conv_rows_def reshape3_def chunks_def conv2d_batch_def conv_ok_def
      conv2d_sample_def conv_out_size_def padded_at_def
      flatten3_def dim1_def concretize_def sym_radius_def abs_col_sum_def owned_abs_sum_def)

theorem symbolic_affine_exact_witness:
  "Interval_Dense_forward (Linear [[2], [3]] (Some [0, 0])) (Sym sym_relu) = Inr (Sym sym_out) \<and>
   sym_c sym_out = map (F_linear_row [[2], [3]] (Some [0, 0])) (sym_c sym_relu) \<and>
   sym_idep sym_out = map (map (mat_vec [[2], [3]])) (sym_idep sym_relu) \<and>
   sym_edep sym_out = map (map (mat_vec [[2], [3]])) (sym_edep sym_relu) \<and>
   length (sym_edep sym_out) = length (sym_edep sym_relu) \<and>
   sym_edep_ind sym_out = sym_edep_ind sym_relu \<and>
   Interval_Conv2d_forward (Conv2d [[[[-2]]]] (Some [1]) (1, 1) (0, 0)) (Sym sym_conv_in) =
     Inr (Sym sym_conv_out) \<and>
   conv_rows [[[[-2]]]] (Some [1]) (1, 1) (0, 0) (sym_shape sym_conv_in) (sym_c sym_conv_in) =
     Inr [[[[-1]]]] \<and>
   sym_c sym_conv_out = [[-1]] \<and>
   length (sym_edep sym_conv_out) = length (sym_edep sym_conv_in) \<and>
   sym_edep_ind sym_conv_out = sym_edep_ind sym_conv_in"
proof -
  note t = symbolic_affine_exact [of "[[2], [3]]" "Some [0, 0]" sym_relu "Sym sym_out" _ _
      "[[[[-2]]]]" "Some [1]" "(1, 1)" "(0, 0)" sym_conv_in "Sym sym_conv_out"]
  from t dense_sym_relu have d:
    "sym_c sym_out = map (F_linear_row [[2], [3]] (Some [0, 0])) (sym_c sym_relu)"
    "sym_idep sym_out = map (map (mat_vec [[2], [3]])) (sym_idep sym_relu)"
    "sym_edep sym_out = map (map (mat_vec [[2], [3]])) (sym_edep sym_relu)"
    "length (sym_edep sym_out) = length (sym_edep sym_relu)"
    "sym_edep_ind sym_out = sym_edep_ind sym_relu"
    by auto
  from t conv_sym_conv_in have c:
    "length (sym_edep sym_conv_out) = length (sym_edep sym_conv_in)"
    "sym_edep_ind sym_conv_out = sym_edep_ind sym_conv_in"
    by auto
  have r: "conv_rows [[[[-2]]]] (Some [1]) (1, 1) (0, 0) (sym_shape sym_conv_in) (sym_c sym_conv_in) =
     Inr [[[[-1]]]]"
    by (simp add: sym_conv_in_def conv_rows_def reshape3_def chunks_def conv2d_batch_def
        conv_ok_def conv2d_sample_def conv_out_size_def padded_at_def dim1_def)
  have o: "sym_c sym_conv_out = [[-1]]" by (simp add: sym_conv_out_def)
  show ?thesis by (intro conjI) (rule dense_sym_relu conv_sym_conv_in d c r o)+
qed


subsection \<open>Error rows of the symbolic ReLU\<close>

lemma length_scatter_col [simp]: "length (scatter_col rows idx src) = length rows"
  by (simp add: scatter_col_def)

lemma length_filter_index:
  "length (filter (\<lambda>j. xs ! j) [0..<length xs]) = length (filter id xs)"
proof -
  have "filter id (map ((!) xs) [0..<length xs]) =
        map ((!) xs) (filter (id \<circ> (!) xs) [0..<length xs])"
    by (simp only: filter_map)
  then have "filter id xs = map ((!) xs) (filter (id \<circ> (!) xs) [0..<length xs])"
    by (simp only: map_nth)
  then have "length (filter id xs) = length (filter (id \<circ> (!) xs) [0..<length xs])"
    by (metis length_map)
  then show ?thesis by (simp add: comp_def)
qed

lemma length_nonzero: "length (nonzero cond) = length (filter id (concat cond))"
proof -
  have "length (nonzero cond) =
        sum_list (map (\<lambda>b. length (filter id (cond ! b))) [0..<length cond])"
    by (simp add: nonzero_def length_concat comp_def length_filter_index)
  also have "\<dots> = sum_list (map (\<lambda>row. length (filter id row)) (map ((!) cond) [0..<length cond]))"
    by (simp add: comp_def)
  also have "\<dots> = sum_list (map (\<lambda>row. length (filter id row)) cond)"
    by (simp add: map_nth)
  also have "\<dots> = length (filter id (concat cond))"
    by (simp add: filter_concat length_concat comp_def)
  finally show ?thesis .
qed

lemma nonzero_fst: "p \<in> set (nonzero cond) \<Longrightarrow> fst p < length cond"
  by (auto simp: nonzero_def)

lemma one_hot_update:
  assumes "b < B"
  shows "one_hot ((replicate B 0)[b := 1])"
proof -
  have e: "(replicate B (0::real))[b := 1] = replicate b 0 @ [1] @ replicate (B - Suc b) 0"
    using assms by (simp add: upd_conv_take_nth_drop)
  show ?thesis unfolding e one_hot_def by (auto simp: list_all_iff)
qed

lemma shapes_rows:
  assumes "shapes_ok ix"
  shows "list_all2 (\<lambda>r s. length r = length s) (sym_l ix) (sym_u ix)"
    and "length (sym_l ix) = sym_batch_size ix"
    and "length (sym_u ix) = sym_batch_size ix"
    and "length (sym_edep ix) = length (sym_edep_ind ix)"
proof -
  from assms have l: "length (sym_l ix) = sym_batch_size ix" "length (sym_u ix) = sym_batch_size ix"
    and r: "list_all (\<lambda>r. length r = sym_n ix) (sym_l ix)"
           "list_all (\<lambda>r. length r = sym_n ix) (sym_u ix)"
    and m: "map length (sym_edep ix) = map length (sym_edep_ind ix)"
    by (simp_all add: shapes_ok_def Let_def)
  show "list_all2 (\<lambda>r s. length r = length s) (sym_l ix) (sym_u ix)"
    using l r by (simp add: list_all2_conv_all_nth list_all_length)
  show "length (sym_l ix) = sym_batch_size ix" "length (sym_u ix) = sym_batch_size ix"
    using l by simp_all
  show "length (sym_edep ix) = length (sym_edep_ind ix)"
    using m by (metis length_map)
qed

lemma count_appr:
  assumes "list_all2 (\<lambda>r s. length r = length s) lower upper"
  shows "length (filter id (concat (map2 (map2 appr_cond) lower upper))) =
         ambiguous_count lower upper"
proof -
  have "concat (map2 (map2 appr_cond) lower upper) = map2 appr_cond (concat lower) (concat upper)"
    using assms
    by (induction rule: list_all2_induct) simp_all
  then show ?thesis
    by (simp add: ambiguous_count_def appr_cond_def filter_map comp_def case_prod_unfold)
qed

lemma relu_sym_fields:
  assumes "Interval_ReLU_sym ix = Inr ix'"
  shows "shapes_ok ix"
    and "sym_edep_ind ix' = sym_edep_ind ix @
           [scatter_col (replicate (length (nonzero (map2 (map2 appr_cond) (sym_l ix) (sym_u ix))))
                           (replicate (length (sym_l ix)) 0))
              (map fst (nonzero (map2 (map2 appr_cond) (sym_l ix) (sym_u ix))))
              (replicate (length (nonzero (map2 (map2 appr_cond) (sym_l ix) (sym_u ix)))) 1)]"
    and "\<exists>scaled new_rows. sym_edep ix' = scaled @ [new_rows] \<and>
           length scaled = min (length (sym_edep ix)) (length (sym_edep_ind ix)) \<and>
           length new_rows =
             length (filter id (concat (map2 (map2 appr_cond) (sym_l ix) (sym_u ix))))"
  using assms
  by (auto simp: Interval_ReLU_sym_def Let_def split: if_splits)

lemma new_owner_one_hot:
  assumes "length lower = B" "length upper = B"
  shows "list_all (\<lambda>row. one_hot row \<and> length row = B)
           (scatter_col (replicate (length (nonzero (map2 (map2 appr_cond) lower upper)))
                           (replicate (length lower) 0))
              (map fst (nonzero (map2 (map2 appr_cond) lower upper)))
              (replicate (length (nonzero (map2 (map2 appr_cond) lower upper))) 1))"
proof -
  let ?nz = "nonzero (map2 (map2 appr_cond) lower upper)"
  have b: "fst (?nz ! i) < B" if "i < length ?nz" for i
  proof -
    have "?nz ! i \<in> set ?nz" using that by simp
    from nonzero_fst [OF this] show ?thesis using assms by simp
  qed
  show ?thesis
    using assms b
    by (simp add: scatter_col_def list_all_length one_hot_update)
qed

text \<open>
  C3. The symbolic ReLU appends exactly one entry to the error dependencies, with one row
  per ambiguous unit of the batch, and one entry to the owners, with as many rows, each of
  the length of the batch with a single entry 1 and 0 elsewhere; the earlier owners are
  unchanged, so that all owner rows stay one-hot.
\<close>

theorem relu_error_row_accounting:
  assumes "Interval_ReLU_forward (Sym ix) = Inr r"
  shows "\<exists>ix' scaled new_rows new_owner. r = Sym ix' \<and>
           sym_edep ix' = scaled @ [new_rows] \<and>
           length scaled = length (sym_edep ix) \<and>
           length new_rows = ambiguous_count (sym_l ix) (sym_u ix) \<and>
           sym_edep_ind ix' = sym_edep_ind ix @ [new_owner] \<and>
           length new_owner = ambiguous_count (sym_l ix) (sym_u ix) \<and>
           list_all one_hot new_owner \<and>
           list_all (\<lambda>row. length row = sym_batch_size ix) new_owner \<and>
           (list_all (list_all one_hot) (sym_edep_ind ix) \<longrightarrow>
              list_all (list_all one_hot) (sym_edep_ind ix'))"
proof -
  from assms obtain ix' where s: "Interval_ReLU_sym ix = Inr ix'" and r: "r = Sym ix'"
    by (cases "Interval_ReLU_sym ix") auto
  let ?cond = "map2 (map2 appr_cond) (sym_l ix) (sym_u ix)"
  let ?owner = "scatter_col (replicate (length (nonzero ?cond)) (replicate (length (sym_l ix)) 0))
              (map fst (nonzero ?cond)) (replicate (length (nonzero ?cond)) 1)"
  note f = relu_sym_fields [OF s]
  note sh = shapes_rows [OF f(1)]
  from f(3) obtain scaled new_rows where e: "sym_edep ix' = scaled @ [new_rows]"
    "length scaled = min (length (sym_edep ix)) (length (sym_edep_ind ix))"
    "length new_rows = length (filter id (concat ?cond))"
    by blast
  have k: "length (filter id (concat ?cond)) = ambiguous_count (sym_l ix) (sym_u ix)"
    by (rule count_appr [OF sh(1)])
  have o: "list_all (\<lambda>row. one_hot row \<and> length row = sym_batch_size ix) ?owner"
    by (rule new_owner_one_hot [OF sh(2) sh(3)])
  have o1: "list_all one_hot ?owner" "list_all (\<lambda>row. length row = sym_batch_size ix) ?owner"
    using o by (simp_all add: list_all_iff)
  have lo: "length ?owner = ambiguous_count (sym_l ix) (sym_u ix)"
    using k by (simp add: length_nonzero)
  have inv: "list_all (list_all one_hot) (sym_edep_ind ix) \<longrightarrow>
              list_all (list_all one_hot) (sym_edep_ind ix')"
    using f(2) o1(1) by simp
  show ?thesis
  proof (intro exI conjI)
    show "r = Sym ix'" by (rule r)
    show "sym_edep ix' = scaled @ [new_rows]" by (rule e(1))
    show "length scaled = length (sym_edep ix)" using e(2) sh(4) by simp
    show "length new_rows = ambiguous_count (sym_l ix) (sym_u ix)" using e(3) k by simp
    show "sym_edep_ind ix' = sym_edep_ind ix @ [?owner]" by (rule f(2))
    show "length ?owner = ambiguous_count (sym_l ix) (sym_u ix)" by (rule lo)
    show "list_all one_hot ?owner" by (rule o1(1))
    show "list_all (\<lambda>row. length row = sym_batch_size ix) ?owner" by (rule o1(2))
    show "list_all (list_all one_hot) (sym_edep_ind ix) \<longrightarrow>
              list_all (list_all one_hot) (sym_edep_ind ix')" by (rule inv)
  qed
qed


lemma relu_sym_out: "Interval_ReLU_forward (Sym sym_out) = Inr (Sym sym_out_relu)"
  by (simp add: sym_out_def sym_out_relu_def Interval_ReLU_sym_def shapes_ok_def
      sym_denominators_def appr_cond_def sym_mask_unit_def nonzero_def masked_select_def
      scatter_col_def mm_def indicator_def Let_def eval_nat_numeral)

theorem relu_error_row_accounting_witness:
  "Interval_ReLU_forward (Sym sym_out) = Inr (Sym sym_out_relu) \<and>
   list_all (list_all one_hot) (sym_edep_ind sym_out) \<and>
   ambiguous_count (sym_l sym_out) (sym_u sym_out) = 2 \<and>
   length (sym_edep sym_out_relu) = length (sym_edep sym_out) + 1 \<and>
   length (last (sym_edep sym_out_relu)) = 2 \<and>
   length (last (sym_edep_ind sym_out_relu)) = 2 \<and>
   list_all one_hot (last (sym_edep_ind sym_out_relu)) \<and>
   list_all (list_all one_hot) (sym_edep_ind sym_out_relu)"
proof -
  have h: "list_all (list_all one_hot) (sym_edep_ind sym_out)"
    by (simp add: sym_out_def one_hot_def)
  have k: "ambiguous_count (sym_l sym_out) (sym_u sym_out) = 2"
    by (simp add: sym_out_def ambiguous_count_def)
  from relu_error_row_accounting [OF relu_sym_out]
  obtain ix' scaled new_rows new_owner where t:
    "Sym sym_out_relu = Sym ix'"
    "sym_edep ix' = scaled @ [new_rows]"
    "length scaled = length (sym_edep sym_out)"
    "length new_rows = ambiguous_count (sym_l sym_out) (sym_u sym_out)"
    "sym_edep_ind ix' = sym_edep_ind sym_out @ [new_owner]"
    "length new_owner = ambiguous_count (sym_l sym_out) (sym_u sym_out)"
    "list_all one_hot new_owner"
    "list_all (list_all one_hot) (sym_edep_ind sym_out) \<longrightarrow>
              list_all (list_all one_hot) (sym_edep_ind ix')"
    by blast
  from t(1) have e: "ix' = sym_out_relu" by simp
  have 1: "length (sym_edep sym_out_relu) = length (sym_edep sym_out) + 1"
    using t(2,3) e by simp
  have 2: "length (last (sym_edep sym_out_relu)) = 2" using t(2,4) e k by simp
  have 3: "length (last (sym_edep_ind sym_out_relu)) = 2" using t(5,6) e k by simp
  have 4: "list_all one_hot (last (sym_edep_ind sym_out_relu))" using t(5,7) e by simp
  have 5: "list_all (list_all one_hot) (sym_edep_ind sym_out_relu)" using t(8) h e by simp
  show ?thesis by (intro conjI) (rule relu_sym_out h k 1 2 3 4 5)+
qed


subsection \<open>The symbolic ReLU at a lower bound 0\<close>

text \<open>
  C2 at a unit with lower bound 0 and upper bound 1: the mask is \<open>lower > 0\<close>, so the
  slope is 0 and not 1. The center 1/2 and its dependency 1/2 become 0, no error term is
  added, and the concretized bounds are \<open>[0, 0]\<close>, although the ReLU of the center is
  1/2. The box branch gives the same unit the slope 1.
\<close>

theorem relu_sym_zero_lower_bound:
  "Symbolic_interval (Flat [[0]]) (Flat [[1]]) False = Inr sym_zero \<and>
   sym_mask_unit 0 1 = 0 \<and>
   Interval_ReLU_forward (Sym sym_zero) = Inr (Sym sym_zero_relu) \<and>
   sym_c sym_zero_relu = [[0]] \<and> sym_idep sym_zero_relu = [[[0]]] \<and>
   sym_l (concretize sym_zero_relu) = [[0]] \<and> sym_u (concretize sym_zero_relu) = [[0]] \<and>
   relu (1/2) = 1/2 \<and>
   box_mask (Flat [[0]]) (Flat [[1]]) = Inr (Flat [[1]])"
proof -
  have 1: "Symbolic_interval (Flat [[0]]) (Flat [[1]]) False = Inr sym_zero"
    by (simp add: Symbolic_interval_def sym_zero_def same_shape_def bounds_ok_def dim1_def
        diag_row_def)
  have 2: "sym_mask_unit 0 1 = 0"
    by (simp add: sym_mask_unit_def appr_cond_def indicator_def)
  have 3: "Interval_ReLU_forward (Sym sym_zero) = Inr (Sym sym_zero_relu)"
    by (simp add: sym_zero_def sym_zero_relu_def Interval_ReLU_sym_def shapes_ok_def
      sym_denominators_def appr_cond_def sym_mask_unit_def nonzero_def masked_select_def
      scatter_col_def mm_def indicator_def Let_def)
  have 4: "sym_c sym_zero_relu = [[0]]" "sym_idep sym_zero_relu = [[[0]]]"
    by (simp_all add: sym_zero_relu_def)
  have 5: "sym_l (concretize sym_zero_relu) = [[0]]" "sym_u (concretize sym_zero_relu) = [[0]]"
    by (simp_all add: sym_zero_relu_def concretize_def sym_radius_def abs_col_sum_def
        owned_abs_sum_def)
  have 6: "relu (1/2) = 1/2" by (simp add: relu_def)
  have 7: "box_mask (Flat [[0]]) (Flat [[1]]) = Inr (Flat [[1]])"
    by (simp add: box_mask_def tdiv_def box_denominators_def box_appr_condition_def
        indicator_def Let_def)
  show ?thesis by (intro conjI) (rule 1 2 3 4 5 6 7)+
qed

subsection \<open>The verification entry points\<close>

lemma tensor_min_Min: "tensor_min X = Inr mn \<Longrightarrow> mn = Min (set (telems X))"
proof (cases "telems X")
  case Nil
  assume "tensor_min X = Inr mn"
  with Nil show ?thesis by simp
next
  case (Cons v vs)
  assume "tensor_min X = Inr mn"
  with Cons have "mn = fold min vs v" by simp
  also have "\<dots> = Min (set (v # vs))" by (rule Min.set_eq_fold [symmetric])
  finally show ?thesis using Cons by simp
qed

lemma tensor_max_Max: "tensor_max X = Inr mx \<Longrightarrow> mx = Max (set (telems X))"
proof (cases "telems X")
  case Nil
  assume "tensor_max X = Inr mx"
  with Nil show ?thesis by simp
next
  case (Cons v vs)
  assume "tensor_max X = Inr mx"
  with Cons have "mx = fold max vs v" by simp
  also have "\<dots> = Max (set (v # vs))" by (rule Max.set_eq_fold [symmetric])
  finally show ?thesis using Cons by simp
qed

lemma Interval_bounds: "Interval lo up uc = Inr ix \<Longrightarrow> ix_l ix = lo \<and> ix_u ix = up"
  by (auto simp: Interval_def update_lu_def split: if_splits)

lemma Symbolic_interval_bounds:
  "Symbolic_interval lo up uc = Inr sx \<Longrightarrow> sym_l sx = rows_of lo \<and> sym_u sx = rows_of up"
  by (auto simp: Symbolic_interval_def split: if_splits)

lemma sum_indicator: "(\<Sum>z\<leftarrow>zs. indicator (P z)) = real (length (filter P zs))"
  by (induction zs) (simp_all add: indicator_def)

lemma zip_as_index:
  assumes "length xs = length ys"
  shows "zip xs ys = map (\<lambda>i. (xs ! i, ys ! i)) [0..<length ys]"
  using assms by (intro nth_equalityI) simp_all

lemma error_count_rate:
  assumes "length wc = length y"
  shows "error_count wc y / real n = error_rate wc y n"
proof -
  have "error_count wc y = real (length (filter (\<lambda>(row, lbl). argmax row \<noteq> lbl) (zip wc y)))"
    unfolding error_count_def
    using sum_indicator [of "\<lambda>(row, lbl). argmax row \<noteq> lbl" "zip wc y"]
    by (simp add: case_prod_unfold)
  also have "\<dots> = real (length (filter (\<lambda>i. argmax (wc ! i) \<noteq> y ! i) [0..<length y]))"
    by (simp add: zip_as_index [OF assms] filter_map comp_def)
  finally show ?thesis by (simp add: error_rate_def)
qed

lemma pin_rows_length: "pin_rows lo up y = Inr wc \<Longrightarrow> length wc = length y"
  by (auto simp: pin_rows_def split: if_splits)

lemma worst_case_length: "worst_case ix y = Inr wc \<Longrightarrow> length wc = length y"
  by (auto simp: worst_case_def pin_rows_length split: tensor.splits)

lemma sym_worst_case_length: "sym_worst_case sx y k = Inr wc \<Longrightarrow> length wc = length y"
  by (auto simp: sym_worst_case_def Let_def pin_rows_length split: if_splits)

lemma naive_outputs:
  assumes "naive_interval_analyze model epsilon X y use_cuda = Inr (iloss, ierr)"
  shows "\<exists>ix ix' wc.
       Interval (clamp (tmap (\<lambda>v. v - epsilon) X) (Min (set (telems X))) (Max (set (telems X))))
                (clamp (tmap (\<lambda>v. v + epsilon) X) (Min (set (telems X))) (Max (set (telems X))))
                use_cuda = Inr ix \<and>
       ix_l ix = clamp (tmap (\<lambda>v. v - epsilon) X) (Min (set (telems X))) (Max (set (telems X))) \<and>
       ix_u ix = clamp (tmap (\<lambda>v. v + epsilon) X) (Min (set (telems X))) (Max (set (telems X))) \<and>
       forward (Interval_network model) (Box ix) = Inr (Box ix') \<and>
       worst_case ix' y = Inr wc \<and>
       iloss = CrossEntropyLoss wc y \<and> ierr = error_rate wc y (batch_len X)"
proof -
  from assms obtain mn mx ix ix' wc where
    mn: "tensor_min X = Inr mn" and mx: "tensor_max X = Inr mx" and
    i: "Interval (clamp (tmap (\<lambda>v. v - epsilon) X) mn mx)
                 (clamp (tmap (\<lambda>v. v + epsilon) X) mn mx) use_cuda = Inr ix" and
    f: "forward (Interval_network model) (Box ix) = Inr (Box ix')" and
    w: "worst_case ix' y = Inr wc" and
    o: "iloss = CrossEntropyLoss wc y" "ierr = error_count wc y / real (batch_len X)"
    unfolding naive_interval_analyze_def Let_def
    by (auto split: sum.splits pyobj.splits if_splits)
  note m = tensor_min_Min [OF mn] tensor_max_Max [OF mx]
  have r: "ierr = error_rate wc y (batch_len X)"
    using o(2) error_count_rate [OF worst_case_length [OF w]] by simp
  show ?thesis
    using i Interval_bounds [OF i] f w o(1) r unfolding m by blast
qed

lemma sym_outputs:
  assumes "sym_interval_analyze net epsilon X y use_cuda = Inr (sloss, serr)"
  shows "\<exists>sx sx' k wc.
       Symbolic_interval
          (clamp (tmap (\<lambda>v. v - epsilon) X) (Min (set (telems X))) (Max (set (telems X))))
          (clamp (tmap (\<lambda>v. v + epsilon) X) (Min (set (telems X))) (Max (set (telems X))))
          use_cuda = Inr sx \<and>
       sym_l sx = rows_of (clamp (tmap (\<lambda>v. v - epsilon) X) (Min (set (telems X))) (Max (set (telems X)))) \<and>
       sym_u sx = rows_of (clamp (tmap (\<lambda>v. v + epsilon) X) (Min (set (telems X))) (Max (set (telems X)))) \<and>
       forward (Interval_network net) (Sym sx) = Inr (Sym sx') \<and>
       out_features net = Inr k \<and>
       sym_worst_case sx' y k = Inr wc \<and>
       sloss = CrossEntropyLoss wc y \<and> serr = error_rate wc y (batch_len X)"
proof -
  from assms obtain mn mx sx sx' k wc where
    mn: "tensor_min X = Inr mn" and mx: "tensor_max X = Inr mx" and
    i: "Symbolic_interval (clamp (tmap (\<lambda>v. v - epsilon) X) mn mx)
                 (clamp (tmap (\<lambda>v. v + epsilon) X) mn mx) use_cuda = Inr sx" and
    f: "forward (Interval_network net) (Sym sx) = Inr (Sym sx')" and
    k: "out_features net = Inr k" and
    w: "sym_worst_case sx' y k = Inr wc" and
    o: "sloss = CrossEntropyLoss wc y" "serr = error_count wc y / real (batch_len X)"
    unfolding sym_interval_analyze_def Let_def
    by (auto split: sum.splits pyobj.splits if_splits)
  note m = tensor_min_Min [OF mn] tensor_max_Max [OF mx]
  have r: "serr = error_rate wc y (batch_len X)"
    using o(2) error_count_rate [OF sym_worst_case_length [OF w]] by simp
  show ?thesis
    using i Symbolic_interval_bounds [OF i] f k w o(1) r unfolding m by blast
qed

lemma network_scn: "Interval_network model_scn =
   [Interval_Dense (Linear [[1, -1]] (Some [0])), Interval_ReLU ReLU,
    Interval_Dense (Linear [[2], [3]] (Some [0, 0]))]"
  by (simp add: model_scn_def Interval_network_def add_layer_def)

lemma minmax_scn: "tensor_min X_scn = Inr 0" "tensor_max X_scn = Inr 3"
  by (simp_all add: X_scn_def)

lemma interval_scn:
  "Interval (clamp (tmap (\<lambda>v. v - 1/2) X_scn) 0 3) (clamp (tmap (\<lambda>v. v + 1/2) X_scn) 0 3) False
     = Inr box_scn"
  by (simp add: X_scn_def clamp_def Interval_def update_lu_def same_shape_def bounds_ok_def
      box_scn_def)

lemma forward_box_scn: "forward (Interval_network model_scn) (Box box_scn) = Inr (Box box_scn_out)"
  by (simp add: network_scn box_scn_def box_scn_out_def Interval_Dense_box_def
      Interval_ReLU_box_def update_lu_def linear_ok_def F_linear_row_def mat_vec_def dot_def
      weight_abs_def same_shape_def bounds_ok_def box_mask_def tdiv_def box_denominators_def
      box_appr_condition_def indicator_def relu_def Let_def)

lemma worst_box_scn: "worst_case box_scn_out [1, 0] = Inr [[2, 0], [0, 0]]"
  by (simp add: worst_case_def box_scn_out_def pin_rows_def pin_row_def eval_nat_numeral)

lemma rate_scn: "error_count [[2, 0], [0, 0]] [1, 0] = 1"
  by (simp add: error_count_def argmax_def indicator_def)

lemma batch_scn: "batch_len X_scn = 2" by (simp add: X_scn_def)

lemma naive_scn:
  "naive_interval_analyze model_scn (1/2) X_scn [1, 0] False =
     Inr (CrossEntropyLoss [[2, 0], [0, 0]] [1, 0], 1/2)"
  unfolding naive_interval_analyze_def Let_def minmax_scn
  by (simp del: One_nat_def add: interval_scn forward_box_scn worst_box_scn rate_scn batch_scn)

lemma symbolic_scn:
  "Symbolic_interval (clamp (tmap (\<lambda>v. v - 1/2) X_scn) 0 3)
     (clamp (tmap (\<lambda>v. v + 1/2) X_scn) 0 3) False = Inr sym_scn"
  by (simp add: X_scn_def clamp_def Symbolic_interval_def same_shape_def bounds_ok_def
      sym_scn_def dim1_def diag_row_def)

lemma forward_sym_scn: "forward (Interval_network model_scn) (Sym sym_scn) = Inr (Sym sym_scn_out)"
  by (simp add: network_scn sym_scn_def sym_scn_out_def Interval_Dense_sym_def F_linear_mat_def
      linear_ok_def F_linear_row_def mat_vec_def dot_def concretize_def sym_radius_def
      abs_col_sum_def owned_abs_sum_def Interval_ReLU_sym_def shapes_ok_def
      sym_denominators_def appr_cond_def sym_mask_unit_def nonzero_def masked_select_def
      scatter_col_def mm_def indicator_def Let_def eval_nat_numeral)

lemma out_features_scn: "out_features model_scn = Inr 2"
  by (simp add: model_scn_def)

lemma worst_sym_scn: "sym_worst_case sym_scn_out [1, 0] 2 = Inr [[2, - (3/2)], [0, 0]]"
  by (simp add: sym_worst_case_def sym_scn_out_def concretize_def sym_radius_def
      abs_col_sum_def owned_abs_sum_def pin_rows_def pin_row_def eval_nat_numeral Let_def)

lemma rate_sym_scn: "error_count [[2, - (3/2)], [0, 0]] [1, 0] = 1"
  by (simp add: error_count_def argmax_def indicator_def)

lemma sym_scn_run:
  "sym_interval_analyze model_scn (1/2) X_scn [1, 0] False =
     Inr (CrossEntropyLoss [[2, - (3/2)], [0, 0]] [1, 0], 1/2)"
  unfolding sym_interval_analyze_def Let_def minmax_scn
  by (simp del: One_nat_def add: symbolic_scn forward_sym_scn out_features_scn worst_sym_scn
      rate_sym_scn batch_scn)

text \<open>
  C8. Both entry points clamp \<open>X - epsilon\<close> and \<open>X + epsilon\<close> to the minimum and the
  maximum of the batch \<open>X\<close>, build the initial domain from these bounds, run the network
  and return the cross-entropy of the worst-case logits against the labels together with
  the number of samples whose first maximal worst-case logit is not at the label, divided
  by the number of samples of \<open>X\<close>.
\<close>

theorem analyze_outputs:
  "(naive_interval_analyze model epsilon X y use_cuda = Inr (iloss, ierr) \<longrightarrow>
     (\<exists>ix ix' wc.
       Interval (clamp (tmap (\<lambda>v. v - epsilon) X) (Min (set (telems X))) (Max (set (telems X))))
                (clamp (tmap (\<lambda>v. v + epsilon) X) (Min (set (telems X))) (Max (set (telems X))))
                use_cuda = Inr ix \<and>
       ix_l ix = clamp (tmap (\<lambda>v. v - epsilon) X) (Min (set (telems X))) (Max (set (telems X))) \<and>
       ix_u ix = clamp (tmap (\<lambda>v. v + epsilon) X) (Min (set (telems X))) (Max (set (telems X))) \<and>
       forward (Interval_network model) (Box ix) = Inr (Box ix') \<and>
       worst_case ix' y = Inr wc \<and>
       iloss = CrossEntropyLoss wc y \<and> ierr = error_rate wc y (batch_len X))) \<and>
   (sym_interval_analyze net epsilon X y use_cuda = Inr (sloss, serr) \<longrightarrow>
     (\<exists>sx sx' k wc.
       Symbolic_interval
          (clamp (tmap (\<lambda>v. v - epsilon) X) (Min (set (telems X))) (Max (set (telems X))))
          (clamp (tmap (\<lambda>v. v + epsilon) X) (Min (set (telems X))) (Max (set (telems X))))
          use_cuda = Inr sx \<and>
       sym_l sx = rows_of (clamp (tmap (\<lambda>v. v - epsilon) X) (Min (set (telems X))) (Max (set (telems X)))) \<and>
       sym_u sx = rows_of (clamp (tmap (\<lambda>v. v + epsilon) X) (Min (set (telems X))) (Max (set (telems X)))) \<and>
       forward (Interval_network net) (Sym sx) = Inr (Sym sx') \<and>
       out_features net = Inr k \<and>
       sym_worst_case sx' y k = Inr wc \<and>
       sloss = CrossEntropyLoss wc y \<and> serr = error_rate wc y (batch_len X)))"
  using naive_outputs [of model epsilon X y use_cuda iloss ierr]
        sym_outputs [of net epsilon X y use_cuda sloss serr]
  by blast

lemma MinMax_scn: "Min (set (telems X_scn)) = 0" "Max (set (telems X_scn)) = 3"
  using tensor_min_Min [OF minmax_scn(1)] tensor_max_Max [OF minmax_scn(2)] by simp_all

theorem analyze_outputs_witness:
  "naive_interval_analyze model_scn (1/2) X_scn [1, 0] False =
     Inr (CrossEntropyLoss [[2, 0], [0, 0]] [1, 0], 1/2) \<and>
   sym_interval_analyze model_scn (1/2) X_scn [1, 0] False =
     Inr (CrossEntropyLoss [[2, - (3/2)], [0, 0]] [1, 0], 1/2) \<and>
   Min (set (telems X_scn)) = 0 \<and> Max (set (telems X_scn)) = 3 \<and>
   Interval (clamp (tmap (\<lambda>v. v - 1/2) X_scn) 0 3) (clamp (tmap (\<lambda>v. v + 1/2) X_scn) 0 3) False
     = Inr box_scn \<and>
   ix_l box_scn = clamp (tmap (\<lambda>v. v - 1/2) X_scn) 0 3 \<and>
   ix_u box_scn = clamp (tmap (\<lambda>v. v + 1/2) X_scn) 0 3 \<and>
   worst_case box_scn_out [1, 0] = Inr [[2, 0], [0, 0]] \<and>
   error_rate [[2, 0], [0, 0]] [1, 0] (batch_len X_scn) = 1/2 \<and>
   sym_l sym_scn = rows_of (clamp (tmap (\<lambda>v. v - 1/2) X_scn) 0 3) \<and>
   sym_u sym_scn = rows_of (clamp (tmap (\<lambda>v. v + 1/2) X_scn) 0 3) \<and>
   sym_worst_case sym_scn_out [1, 0] 2 = Inr [[2, - (3/2)], [0, 0]] \<and>
   error_rate [[2, - (3/2)], [0, 0]] [1, 0] (batch_len X_scn) = 1/2"
proof -
  note t = analyze_outputs [of model_scn "1/2" X_scn "[1, 0]" False
      "CrossEntropyLoss [[2, 0], [0, 0]] [1, 0]" "1/2" model_scn
      "CrossEntropyLoss [[2, - (3/2)], [0, 0]] [1, 0]" "1/2"]
  from t [THEN conjunct1, THEN mp, OF naive_scn] obtain ix ix' wc where n:
    "Interval (clamp (tmap (\<lambda>v. v - 1/2) X_scn) (Min (set (telems X_scn))) (Max (set (telems X_scn))))
              (clamp (tmap (\<lambda>v. v + 1/2) X_scn) (Min (set (telems X_scn))) (Max (set (telems X_scn))))
              False = Inr ix"
    "ix_l ix = clamp (tmap (\<lambda>v. v - 1/2) X_scn) (Min (set (telems X_scn))) (Max (set (telems X_scn)))"
    "ix_u ix = clamp (tmap (\<lambda>v. v + 1/2) X_scn) (Min (set (telems X_scn))) (Max (set (telems X_scn)))"
    "forward (Interval_network model_scn) (Box ix) = Inr (Box ix')"
    "worst_case ix' [1, 0] = Inr wc"
    "1/2 = error_rate wc [1, 0] (batch_len X_scn)"
    by blast
  have ix: "ix = box_scn" using n(1) interval_scn by (simp add: MinMax_scn)
  have ix': "ix' = box_scn_out" using n(4) forward_box_scn by (simp add: ix)
  have wc: "wc = [[2, 0], [0, 0]]" using n(5) worst_box_scn by (simp del: One_nat_def add: ix')
  from t [THEN conjunct2, THEN mp, OF sym_scn_run] obtain sx sx' k sc where m:
    "Symbolic_interval
        (clamp (tmap (\<lambda>v. v - 1/2) X_scn) (Min (set (telems X_scn))) (Max (set (telems X_scn))))
        (clamp (tmap (\<lambda>v. v + 1/2) X_scn) (Min (set (telems X_scn))) (Max (set (telems X_scn))))
        False = Inr sx"
    "sym_l sx = rows_of (clamp (tmap (\<lambda>v. v - 1/2) X_scn) (Min (set (telems X_scn))) (Max (set (telems X_scn))))"
    "sym_u sx = rows_of (clamp (tmap (\<lambda>v. v + 1/2) X_scn) (Min (set (telems X_scn))) (Max (set (telems X_scn))))"
    "forward (Interval_network model_scn) (Sym sx) = Inr (Sym sx')"
    "out_features model_scn = Inr k"
    "sym_worst_case sx' [1, 0] k = Inr sc"
    "1/2 = error_rate sc [1, 0] (batch_len X_scn)"
    by blast
  have sx: "sx = sym_scn" using m(1) symbolic_scn by (simp add: MinMax_scn)
  have sx': "sx' = sym_scn_out" using m(4) forward_sym_scn by (simp add: sx)
  have k: "k = 2" using m(5) out_features_scn by simp
  have sc: "sc = [[2, - (3/2)], [0, 0]]"
    using m(6) worst_sym_scn by (simp del: One_nat_def add: sx' k)
  have 1: "ix_l box_scn = clamp (tmap (\<lambda>v. v - 1/2) X_scn) 0 3"
          "ix_u box_scn = clamp (tmap (\<lambda>v. v + 1/2) X_scn) 0 3"
    using n(2,3) by (simp_all add: ix MinMax_scn)
  have 2: "error_rate [[2, 0], [0, 0]] [1, 0] (batch_len X_scn) = 1/2"
    using n(6) by (simp del: One_nat_def add: wc)
  have 3: "sym_l sym_scn = rows_of (clamp (tmap (\<lambda>v. v - 1/2) X_scn) 0 3)"
          "sym_u sym_scn = rows_of (clamp (tmap (\<lambda>v. v + 1/2) X_scn) 0 3)"
    using m(2,3) by (simp_all add: sx MinMax_scn)
  have 4: "error_rate [[2, - (3/2)], [0, 0]] [1, 0] (batch_len X_scn) = 1/2"
    using m(7) by (simp del: One_nat_def add: sc)
  show ?thesis
    by (intro conjI) (rule naive_scn sym_scn_run MinMax_scn interval_scn 1 2 3 4
        worst_box_scn worst_sym_scn)+
qed

subsection \<open>The symbolic ReLU, unit by unit\<close>

text \<open>
  What the symbolic branch does to every unit: the slope of an ambiguous unit is
  \<open>upper / (upper - lower)\<close>, that of a unit with a positive lower bound 1, that of a unit
  with an upper bound at most 0 is 0, and so is that of a unit with the lower bound 0. The
  center and the exact dependency of a unit are multiplied by its slope, and the center of
  an ambiguous unit is shifted by \<open>slope * (- lower) / 2\<close>. Every ambiguous unit gets one
  new error row, zero but for \<open>slope * (- lower) / 2\<close> at its position, owned by its
  sample; an earlier error row is multiplied by the slopes of the sample that owns it.
\<close>

lemma sym_mask_unit_cases:
  "appr_cond lo up \<Longrightarrow> sym_mask_unit lo up = up / (up - lo)"
  "0 < lo \<Longrightarrow> sym_mask_unit lo up = 1"
  "up \<le> 0 \<Longrightarrow> lo \<le> up \<Longrightarrow> sym_mask_unit lo up = 0"
  "lo = 0 \<Longrightarrow> sym_mask_unit lo up = 0"
  by (auto simp: sym_mask_unit_def appr_cond_def indicator_def)

lemma set_nonzero:
  "set (nonzero cond) = {(b, j). b < length cond \<and> j < length (cond ! b) \<and> cond ! b ! j}"
  by (auto simp: nonzero_def)

lemma distinct_indexed_concat:
  assumes "\<And>b. distinct (f b)" and "\<And>b p. p \<in> set (f b) \<Longrightarrow> fst p = b"
  shows "distinct (concat (map f [0..<n]))"
proof (induction n)
  case 0
  then show ?case by simp
next
  case (Suc n)
  have a: "fst p < n" if "p \<in> set (concat (map f [0..<n]))" for p
  proof -
    from that obtain b where "b < n" "p \<in> set (f b)" by auto
    then show ?thesis using assms(2) [of p b] by simp
  qed
  have b: "fst p = n" if "p \<in> set (f n)" for p
    using assms(2) [OF that] .
  have "set (concat (map f [0..<n])) \<inter> set (f n) = {}"
  proof (rule ccontr)
    assume "set (concat (map f [0..<n])) \<inter> set (f n) \<noteq> {}"
    then obtain p where "p \<in> set (concat (map f [0..<n]))" "p \<in> set (f n)" by blast
    then show False using a [of p] b [of p] by simp
  qed
  then show ?case using Suc assms(1) by simp
qed

lemma distinct_nonzero: "distinct (nonzero cond)"
  unfolding nonzero_def
  by (rule distinct_indexed_concat) (auto simp: distinct_map inj_on_def)

lemma row_select:
  assumes "length tr = length cr"
  shows "map fst (filter snd (zip tr cr)) = map ((!) tr) (filter ((!) cr) [0..<length cr])"
proof -
  have "zip tr cr = map (\<lambda>j. (tr ! j, cr ! j)) [0..<length cr]"
    by (rule zip_as_index [OF assms])
  then show ?thesis by (simp add: filter_map comp_def)
qed

lemma masked_select_nonzero:
  assumes "list_all2 (\<lambda>r s. length r = length s) t cond"
  shows "masked_select t cond = map (\<lambda>(b, j). t ! b ! j) (nonzero cond)"
proof -
  have len: "length t = length cond" using assms by (rule list_all2_lengthD)
  have rows: "length (t ! b) = length (cond ! b)" if "b < length cond" for b
    using assms that by (simp add: list_all2_conv_all_nth)
  have "zip (concat t) (concat cond) = concat (map2 zip t cond)"
    using assms by (induction rule: list_all2_induct) simp_all
  then have "masked_select t cond =
      concat (map (\<lambda>(tr, cr). map fst (filter snd (zip tr cr))) (zip t cond))"
    by (simp add: masked_select_def filter_concat map_concat comp_def case_prod_unfold)
  also have "\<dots> = concat (map (\<lambda>b. map fst (filter snd (zip (t ! b) (cond ! b)))) [0..<length cond])"
    by (simp add: zip_as_index [OF len] comp_def)
  also have "\<dots> = concat (map (\<lambda>b. map ((!) (t ! b)) (filter ((!) (cond ! b)) [0..<length (cond ! b)]))
                        [0..<length cond])"
    by (rule arg_cong [where f = concat], rule map_cong) (simp_all add: row_select rows)
  also have "\<dots> = map (\<lambda>(b, j). t ! b ! j) (nonzero cond)"
    by (simp add: nonzero_def map_concat comp_def)
  finally show ?thesis .
qed


lemma relu_sym_explicit:
  assumes "Interval_ReLU_sym ix = Inr ix'"
  defines "cond \<equiv> map2 (map2 appr_cond) (sym_l ix) (sym_u ix)"
    and "msk \<equiv> map2 (map2 sym_mask_unit) (sym_l ix) (sym_u ix)"
  defines "appr_err \<equiv> map2 (map2 (\<lambda>mk lo. mk * (- lo) / 2)) msk (sym_l ix)"
  shows "sym_c ix' = map2 (map2 (+)) (map2 (map2 (*)) (sym_c ix) msk)
                       (map2 (map2 (\<lambda>a p. a * indicator p)) appr_err cond)"
    and "sym_idep ix' = map2 (\<lambda>dep mrow. map (\<lambda>r. map2 (*) r mrow) dep) (sym_idep ix) msk"
    and "sym_edep ix' =
           map2 (\<lambda>ed ind. map2 (map2 (*)) ed (mm (sym_n ix) ind msk)) (sym_edep ix) (sym_edep_ind ix) @
           [scatter_col (replicate (length (filter id (concat cond))) (replicate (sym_n ix) 0))
              (map snd (nonzero cond)) (masked_select appr_err cond)]"
  using assms(1) unfolding cond_def msk_def appr_err_def
  by (auto simp: Interval_ReLU_sym_def Let_def split: if_splits)

lemma shapes_nth:
  assumes "shapes_ok ix" "b < sym_batch_size ix"
  shows "b < length (sym_l ix)" "b < length (sym_u ix)" "b < length (sym_c ix)"
    "b < length (sym_idep ix)"
    "length (sym_l ix ! b) = sym_n ix" "length (sym_u ix ! b) = sym_n ix"
    "length (sym_c ix ! b) = sym_n ix"
    "k < length (sym_idep ix ! b) \<Longrightarrow> length (sym_idep ix ! b ! k) = sym_n ix"
  using assms by (simp_all add: shapes_ok_def Let_def list_all_length)

lemma relu_sym_unit:
  assumes r: "Interval_ReLU_sym ix = Inr ix'" and b: "b < sym_batch_size ix" and j: "j < sym_n ix"
  shows "sym_c ix' ! b ! j =
           sym_c ix ! b ! j * sym_mask_unit (sym_l ix ! b ! j) (sym_u ix ! b ! j) +
           (if appr_cond (sym_l ix ! b ! j) (sym_u ix ! b ! j)
            then sym_mask_unit (sym_l ix ! b ! j) (sym_u ix ! b ! j) * (- (sym_l ix ! b ! j)) / 2
            else 0)"
    and "k < length (sym_idep ix ! b) \<Longrightarrow>
         sym_idep ix' ! b ! k ! j =
           sym_idep ix ! b ! k ! j * sym_mask_unit (sym_l ix ! b ! j) (sym_u ix ! b ! j)"
proof -
  have ok: "shapes_ok ix" using r by (rule relu_sym_fields(1))
  note n = shapes_nth [OF ok b]
  show "sym_c ix' ! b ! j =
           sym_c ix ! b ! j * sym_mask_unit (sym_l ix ! b ! j) (sym_u ix ! b ! j) +
           (if appr_cond (sym_l ix ! b ! j) (sym_u ix ! b ! j)
            then sym_mask_unit (sym_l ix ! b ! j) (sym_u ix ! b ! j) * (- (sym_l ix ! b ! j)) / 2
            else 0)"
    using n j by (simp add: relu_sym_explicit(1) [OF r] indicator_def)
  assume k: "k < length (sym_idep ix ! b)"
  show "sym_idep ix' ! b ! k ! j =
           sym_idep ix ! b ! k ! j * sym_mask_unit (sym_l ix ! b ! j) (sym_u ix ! b ! j)"
    using n(1-7) n(8) [OF k] j k by (simp add: relu_sym_explicit(2) [OF r])
qed


lemma relu_sym_new_rows:
  assumes r: "Interval_ReLU_sym ix = Inr ix'"
  defines "nz \<equiv> nonzero (map2 (map2 appr_cond) (sym_l ix) (sym_u ix))"
  shows "distinct nz"
    and "set nz = {(b, j). b < sym_batch_size ix \<and> j < sym_n ix \<and>
                     appr_cond (sym_l ix ! b ! j) (sym_u ix ! b ! j)}"
    and "length (last (sym_edep ix')) = length nz"
    and "q < length nz \<Longrightarrow>
         last (sym_edep ix') ! q =
           (replicate (sym_n ix) 0)
             [snd (nz ! q) :=
                sym_mask_unit (sym_l ix ! fst (nz ! q) ! snd (nz ! q))
                              (sym_u ix ! fst (nz ! q) ! snd (nz ! q)) *
                (- (sym_l ix ! fst (nz ! q) ! snd (nz ! q))) / 2]"
    and "q < length nz \<Longrightarrow>
         last (sym_edep_ind ix') ! q = (replicate (sym_batch_size ix) 0)[fst (nz ! q) := 1]"
proof -
  let ?cond = "map2 (map2 appr_cond) (sym_l ix) (sym_u ix)"
  let ?msk = "map2 (map2 sym_mask_unit) (sym_l ix) (sym_u ix)"
  let ?err = "map2 (map2 (\<lambda>mk lo. mk * (- lo) / 2)) ?msk (sym_l ix)"
  have ok: "shapes_ok ix" using r by (rule relu_sym_fields(1))
  note sh = shapes_rows [OF ok]
  have lc: "length ?cond = sym_batch_size ix" using sh(2,3) by simp
  have rc: "length (?cond ! b) = sym_n ix" if "b < sym_batch_size ix" for b
    using shapes_nth [OF ok that] by simp
  have vc: "?cond ! b ! j = appr_cond (sym_l ix ! b ! j) (sym_u ix ! b ! j)"
    if "b < sym_batch_size ix" "j < sym_n ix" for b j
    using shapes_nth [OF ok that(1)] that(2) by simp
  show "distinct nz" unfolding nz_def by (rule distinct_nonzero)
  show s: "set nz = {(b, j). b < sym_batch_size ix \<and> j < sym_n ix \<and>
                     appr_cond (sym_l ix ! b ! j) (sym_u ix ! b ! j)}"
    unfolding nz_def set_nonzero lc using rc vc by auto
  have le: "list_all2 (\<lambda>r s. length r = length s) ?err ?cond"
    using sh(2,3) shapes_nth [OF ok] by (simp add: list_all2_conv_all_nth)
  have ms: "masked_select ?err ?cond = map (\<lambda>(b, j). ?err ! b ! j) nz"
    unfolding nz_def by (rule masked_select_nonzero [OF le])
  have m: "length (filter id (concat ?cond)) = length nz"
    unfolding nz_def by (rule length_nonzero [symmetric])
  have e: "last (sym_edep ix') =
             scatter_col (replicate (length nz) (replicate (sym_n ix) 0)) (map snd nz)
               (map (\<lambda>(b, j). ?err ! b ! j) nz)"
    using relu_sym_explicit(3) [OF r] ms m by (simp add: nz_def)
  show "length (last (sym_edep ix')) = length nz" by (simp add: e)
  have o: "last (sym_edep_ind ix') =
             scatter_col (replicate (length nz) (replicate (sym_batch_size ix) 0))
               (map fst nz) (replicate (length nz) 1)"
    using relu_sym_fields(2) [OF r] sh(2) by (simp add: nz_def)
  assume q: "q < length nz"
  then have "nz ! q \<in> set nz" by simp
  then have i: "fst (nz ! q) < sym_batch_size ix" "snd (nz ! q) < sym_n ix"
    unfolding s by auto
  have v: "?err ! fst (nz ! q) ! snd (nz ! q) =
             sym_mask_unit (sym_l ix ! fst (nz ! q) ! snd (nz ! q))
                           (sym_u ix ! fst (nz ! q) ! snd (nz ! q)) *
             (- (sym_l ix ! fst (nz ! q) ! snd (nz ! q))) / 2"
    using shapes_nth [OF ok i(1)] i(2) by simp
  show "last (sym_edep ix') ! q =
           (replicate (sym_n ix) 0)
             [snd (nz ! q) :=
                sym_mask_unit (sym_l ix ! fst (nz ! q) ! snd (nz ! q))
                              (sym_u ix ! fst (nz ! q) ! snd (nz ! q)) *
                (- (sym_l ix ! fst (nz ! q) ! snd (nz ! q))) / 2]"
    using q v by (simp add: e scatter_col_def case_prod_unfold)
  show "last (sym_edep_ind ix') ! q = (replicate (sym_batch_size ix) 0)[fst (nz ! q) := 1]"
    using q by (simp add: o scatter_col_def)
qed

lemma sum_one_hot:
  assumes "ob < B"
  shows "(\<Sum>b\<leftarrow>[0..<B]. (replicate B (0::real))[ob := 1] ! b * f b) = f ob"
proof -
  have "(\<Sum>b\<leftarrow>[0..<B]. (replicate B (0::real))[ob := 1] ! b * f b) =
        (\<Sum>b\<leftarrow>[0..<B]. if b = ob then f b else 0)"
    by (rule arg_cong [where f = sum_list], rule map_cong) (auto simp: nth_list_update)
  also have "\<dots> = (if ob < B then f ob else 0)"
    by (induction B) simp_all
  finally show ?thesis using assms by simp
qed

lemma relu_sym_scaled_rows:
  assumes r: "Interval_ReLU_sym ix = Inr ix'"
    and i: "i < length (sym_edep ix)" and q: "q < length (sym_edep ix ! i)"
    and j: "j < sym_n ix" and ob: "ob < sym_batch_size ix"
    and own: "sym_edep_ind ix ! i ! q = (replicate (sym_batch_size ix) 0)[ob := 1]"
  shows "sym_edep ix' ! i ! q ! j =
           sym_edep ix ! i ! q ! j * sym_mask_unit (sym_l ix ! ob ! j) (sym_u ix ! ob ! j)"
proof -
  let ?msk = "map2 (map2 sym_mask_unit) (sym_l ix) (sym_u ix)"
  have ok: "shapes_ok ix" using r by (rule relu_sym_fields(1))
  note sh = shapes_rows [OF ok]
  from ok have ml: "map length (sym_edep ix) = map length (sym_edep_ind ix)"
    and er: "list_all (list_all (\<lambda>r. length r = sym_n ix)) (sym_edep ix)"
    by (simp_all add: shapes_ok_def Let_def)
  have i': "i < length (sym_edep_ind ix)" using i sh(4) by simp
  have "map length (sym_edep ix) ! i = map length (sym_edep_ind ix) ! i" using ml by simp
  then have q': "q < length (sym_edep_ind ix ! i)" using q i i' by simp
  have len: "length (sym_edep ix ! i ! q) = sym_n ix"
    using er i q by (simp add: list_all_length)
  have lm: "length ?msk = sym_batch_size ix" using sh(2,3) by simp
  have mv: "?msk ! b ! j = sym_mask_unit (sym_l ix ! b ! j) (sym_u ix ! b ! j)"
    if "b < sym_batch_size ix" for b
    using shapes_nth [OF ok that] j by simp
  have "mm (sym_n ix) (sym_edep_ind ix ! i) ?msk ! q ! j =
        (\<Sum>b\<leftarrow>[0..<sym_batch_size ix]. (replicate (sym_batch_size ix) 0)[ob := 1] ! b * ?msk ! b ! j)"
    using q' j own lm by (simp add: mm_def)
  also have "\<dots> = ?msk ! ob ! j" by (rule sum_one_hot [OF ob])
  finally have w: "mm (sym_n ix) (sym_edep_ind ix ! i) ?msk ! q ! j =
                    sym_mask_unit (sym_l ix ! ob ! j) (sym_u ix ! ob ! j)"
    using mv [OF ob] by simp
  have "sym_edep ix' ! i =
          map2 (map2 (*)) (sym_edep ix ! i) (mm (sym_n ix) (sym_edep_ind ix ! i) ?msk)"
    using i i' by (simp add: relu_sym_explicit(3) [OF r] nth_append)
  then show ?thesis using q q' j len w by (simp add: mm_def)
qed

end
